theory Spec2Isabelle
  imports
    Complex_Main
    "HOL-Library.Sublist"
    "HOL-Library.Multiset"
    "HOL-Library.Char_ord"
    "HOL-Library.List_Lexorder"
    "HOL-Library.Log_Nat"
begin

section \<open>reaganPLAYER: the player loop of \<open>reaganplayer.py\<close>\<close>

text \<open>
  The program is one function, \<open>reaganPLAYER\<close>, whose \<open>while True\<close> loop polls the
  mixer's end-of-track events, lists the current directory, reads one line from the user
  and dispatches on it.  The embedding below follows that loop: the local variables of
  \<open>reaganPLAYER\<close> are the fields of the record \<open>state\<close>, everything the loop reads
  from outside in one iteration (the file system, the mixer, the keyboard, the random
  generator) is the record \<open>world\<close>, and one iteration is the function \<open>iteration\<close>.
  Calls on the mixer and lines printed by the handlers are appended to two logs kept in
  the state, so that "plays", "reports" and "does not restart" are statements about
  those logs.  An exception that no \<open>except\<close> clause catches ends the program: it is an
  outcome of the iteration, \<open>Crash\<close>, which keeps the exception and the state reached
  when it was raised.  Drawing the menu (\<open>print_in_columns\<close>, \<open>draw_player_controls\<close>,
  \<open>get_music_info\<close>, album art) changes no variable of the loop and is left out.
\<close>

subsection \<open>Paths (\<open>os.path\<close>, POSIX flavour)\<close>

type_synonym path = string

definition join :: "path \<Rightarrow> string \<Rightarrow> path" where
  "join a b =
     (if b \<noteq> [] \<and> hd b = CHR ''/'' then b
      else if a = [] \<or> last a = CHR ''/'' then a @ b
      else a @ CHR ''/'' # b)"

definition basename :: "path \<Rightarrow> string" where
  "basename p = rev (takeWhile (\<lambda>c. c \<noteq> CHR ''/'') (rev p))"

definition dirname :: "path \<Rightarrow> path" where
  "dirname p =
     (let head = rev (dropWhile (\<lambda>c. c \<noteq> CHR ''/'') (rev p))
      in if head \<noteq> [] \<and> \<not> list_all (\<lambda>c. c = CHR ''/'') head
         then rev (dropWhile (\<lambda>c. c = CHR ''/'') (rev head))
         else head)"

subsection \<open>Python list primitives\<close>

text \<open>\<open>xs.index(x)\<close>: the first position of \<open>x\<close>, \<open>None\<close> for \<open>ValueError\<close>.\<close>

fun index_of :: "'a list \<Rightarrow> 'a \<Rightarrow> nat option" where
  "index_of [] x = None"
| "index_of (y # ys) x =
     (if y = x then Some 0 else map_option Suc (index_of ys x))"

text \<open>\<open>xs[a:b]\<close> for arbitrary integers \<open>a\<close>, \<open>b\<close> (negative ones count from the end).\<close>

definition slice_bound :: "nat \<Rightarrow> int \<Rightarrow> nat" where
  "slice_bound n i = (if i < 0 then nat (max (i + int n) 0) else min (nat i) n)"

definition py_slice :: "'a list \<Rightarrow> int \<Rightarrow> int \<Rightarrow> 'a list" where
  "py_slice xs a b =
     (let lo = slice_bound (length xs) a; hi = slice_bound (length xs) b
      in take (hi - lo) (drop lo xs))"

text \<open>
  \<open>random.shuffle(x)\<close> is the loop
  \<^verbatim>\<open>for i in reversed(range(1, len(x))): j = randbelow(i + 1); x[i], x[j] = x[j], x[i]\<close>.
  The random generator is the function \<open>rb\<close>: \<open>rb (i + 1)\<close> is what \<open>randbelow(i + 1)\<close>
  returns in this shuffle, reduced modulo \<open>i + 1\<close> so that every \<open>rb\<close> is a legal generator.
\<close>

primrec shuffle_loop :: "(nat \<Rightarrow> nat) \<Rightarrow> nat \<Rightarrow> 'a list \<Rightarrow> 'a list" where
  "shuffle_loop rb 0 xs = xs"
| "shuffle_loop rb (Suc k) xs =
     (let i = Suc k; j = rb (Suc i) mod Suc i
      in shuffle_loop rb k (xs[i := xs ! j, j := xs ! i]))"

definition shuffle :: "(nat \<Rightarrow> nat) \<Rightarrow> 'a list \<Rightarrow> 'a list" where
  "shuffle rb xs = shuffle_loop rb (length xs - 1) xs"

subsection \<open>Configuration, state and the outside world\<close>

text \<open>
  A Python float is a binary64 number, hence a rational, and \<open>volume\<close> holds that
  rational.  Comparing floats, \<open>min\<close> and \<open>max\<close> are exact; \<open>a + b\<close> and \<open>a - b\<close> are the
  exact sum or difference rounded to the nearest binary64 number, ties to the even
  significand: \<open>round64\<close>.  \<open>exponent x\<close> is the integer \<open>e\<close> with
  \<open>2 powi e \<le> \<bar>x\<bar> < 2 powi (e + 1)\<close>, and \<open>ulp x\<close> is the spacing of the binary64 numbers
  around \<open>x\<close>: 53 significant bits, and no spacing finer than \<open>2 powi - 1074\<close>.  Overflow
  to infinity is not modelled: the sums formed from a volume between 0 and 1 stay
  between \<open>-0.1\<close> and \<open>1.1\<close>.  \<open>tenth\<close> is the binary64 value of the literal \<open>0.1\<close>.
\<close>

definition round_half_even :: "rat \<Rightarrow> int" where
  "round_half_even y =
     (let f = \<lfloor>y\<rfloor>; r = y - of_int f
      in if r < 1 / 2 then f
         else if 1 / 2 < r then f + 1
         else if even f then f else f + 1)"

definition exponent :: "rat \<Rightarrow> int" where
  "exponent x =
     (if 1 \<le> \<bar>x\<bar> then int (floorlog 2 (nat \<lfloor>\<bar>x\<bar>\<rfloor>)) - 1
      else - int (floorlog 2 (nat (\<lceil>1 / \<bar>x\<bar>\<rceil> - 1))))"

definition ulp :: "rat \<Rightarrow> rat" where
  "ulp x = 2 powi (max (exponent x - 52) (- 1074))"

definition round64 :: "rat \<Rightarrow> rat" where
  "round64 x = (if x = 0 then 0 else of_int (round_half_even (x / ulp x)) * ulp x)"

definition tenth :: rat where
  "tenth = 3602879701896397 / 36028797018963968"

record config =
  music_folder :: path
  volume :: rat
  shuffle_on :: bool
  page_size :: int
  current_page :: int

datatype mixer_call =
    Load path | Play | Pause | Unpause | Stop | SetVolume rat | MixerQuit

datatype message =
    ErrorLoadingSong string string
  | ErrorSavingConfiguration string
  | DirectoryNotFound path
  | AddedToQueue path
  | InvalidSelection
  | InvalidAddInput
  | QueueCleared
  | InvalidNumber
  | InvalidInput
  | Exiting

record state =
  config :: config
  current_path :: path
  now_playing_song :: "path option"
  is_paused :: bool
  queue :: "path list"
  current_playlist :: "path list"
  current_song_index :: int
  config_file :: "config option"
  mixer_log :: "mixer_call list"
  console :: "message list"

datatype node = Directory | RegularFile | OtherNode

datatype listdir_result = Entries "string list" | FileNotFoundError | OSError string

text \<open>
  Exceptions that reach the loop, by the classes its \<open>except\<close> clauses tell apart:
  \<open>ValueError\<close> and \<open>IndexError\<close> are caught by the handler of a typed number, every other
  exception (\<open>FileNotFoundError\<close> for a file that is missing, say) by no clause at all.
  \<open>mixer.music.load\<close> returns, or raises \<open>pygame.error\<close>, which \<open>play_song\<close> catches, or
  raises one of those exceptions, which \<open>play_song\<close> does not catch.  Writing the
  configuration fails either in \<open>open(config_file, 'w')\<close>, before the file is touched, or
  in \<open>json.dump\<close>, after \<open>open\<close> has emptied it.
\<close>

datatype exn = ValueError string | IndexError string | OtherException string

datatype load_result = Loaded | PygameError string | LoadRaises exn

datatype write_failure = CannotOpen string | CannotWrite string

text \<open>
  What one iteration of the loop reads from outside.  \<open>listdir p\<close> is what
  \<open>os.listdir(p)\<close> returns or raises (\<open>OSError\<close> stands for the exceptions other than
  \<open>FileNotFoundError\<close>, which the loop does not catch); \<open>node_at p\<close> is what is at
  \<open>p\<close>, read by \<open>os.path.isdir\<close> and \<open>os.path.isfile\<close>; \<open>load p\<close> is what
  \<open>mixer.music.load(p)\<close> does; \<open>get_busy\<close> is what
  \<open>mixer.music.get_busy()\<close> answers to the command of this iteration; \<open>randbelow\<close> is the
  random generator; \<open>write_error\<close> is the exception raised while writing
  \<open>reaganplayer.json\<close>, if any; \<open>end_events\<close> is the number of \<open>USEREVENT\<close>s returned by
  \<open>pygame.event.get()\<close>; \<open>choice\<close> is the line typed at the prompt after
  \<open>.strip().lower()\<close> and \<open>add_line\<close> the line typed at the prompt of \<open>add\<close> after
  \<open>.strip()\<close>; \<open>parse_int s = None\<close> is \<open>ValueError\<close> from \<open>int(s)\<close>; \<open>root\<close> is
  \<open>os.path.abspath(music_folder)\<close>.
\<close>

record world =
  listdir :: "path \<Rightarrow> listdir_result"
  node_at :: "path \<Rightarrow> node option"
  load :: "path \<Rightarrow> load_result"
  get_busy :: bool
  end_events :: nat
  randbelow :: "nat \<Rightarrow> nat"
  write_error :: "write_failure option"
  parse_int :: "string \<Rightarrow> int option"
  choice :: string
  add_line :: string
  root :: path

definition isdir :: "world \<Rightarrow> path \<Rightarrow> bool" where
  "isdir w p = (node_at w p = Some Directory)"

definition isfile :: "world \<Rightarrow> path \<Rightarrow> bool" where
  "isfile w p = (node_at w p = Some RegularFile)"

definition say :: "message \<Rightarrow> state \<Rightarrow> state" where
  "say m st = st\<lparr>console := console st @ [m]\<rparr>"

definition call_mixer :: "mixer_call \<Rightarrow> state \<Rightarrow> state" where
  "call_mixer c st = st\<lparr>mixer_log := mixer_log st @ [c]\<rparr>"

subsection \<open>\<open>save_config\<close> and \<open>play_song\<close>\<close>

text \<open>
  \<open>config_file\<close> is the configuration that \<open>reaganplayer.json\<close> holds, \<open>None\<close> when the
  file is missing or holds none.  \<open>save_config\<close> writes the configuration, or prints the
  exception: the file is then as it was if it could not be opened, and holds no
  configuration if \<open>open\<close> had emptied it before the write failed.

  \<open>play_song\<close> asks the mixer to load the file and then to play it; it catches
  \<open>pygame.error\<close>, prints it with the base name of the file, and returns \<open>False\<close>; any
  other exception of the load leaves \<open>play_song\<close>, after the call and before anything is
  printed.  The call \<open>mixer.music.play()\<close> that follows a successful load is taken not to
  raise.
\<close>

definition save_config :: "world \<Rightarrow> state \<Rightarrow> state" where
  "save_config w st =
     (case write_error w of
        None \<Rightarrow> st\<lparr>config_file := Some (config st)\<rparr>
      | Some (CannotOpen e) \<Rightarrow> say (ErrorSavingConfiguration e) st
      | Some (CannotWrite e) \<Rightarrow>
          say (ErrorSavingConfiguration e) (st\<lparr>config_file := None\<rparr>))"

datatype played = Returned bool state | Raised exn state

definition play_song :: "world \<Rightarrow> path \<Rightarrow> state \<Rightarrow> played" where
  "play_song w song_path st =
     (case load w song_path of
        Loaded \<Rightarrow> Returned True (call_mixer Play (call_mixer (Load song_path) st))
      | PygameError e \<Rightarrow>
          Returned False (say (ErrorLoadingSong (basename song_path) e)
                            (call_mixer (Load song_path) st))
      | LoadRaises x \<Rightarrow> Raised x (call_mixer (Load song_path) st))"

subsection \<open>The end-of-track event\<close>

text \<open>
  How a handler, an iteration or a run ends: the loop goes on, \<open>q\<close> leaves it, the missing
  directory makes \<open>reaganPLAYER\<close> return, or an exception that nothing catches leaves the
  program.
\<close>

datatype outcome = Continue state | Quit state | Abort state | Crash exn state

text \<open>
  \<open>start_track\<close> is the pair of statements
  \<^verbatim>\<open>play_song(pygame, console, current_playlist[current_song_index])\<close>,
  \<^verbatim>\<open>now_playing_song = current_playlist[current_song_index]\<close>, which every handler that
  plays from the playlist ends with; the result of \<open>play_song\<close> is dropped, as in the
  source, and the assignment is not reached when \<open>play_song\<close> raises.  It is used where
  the index is known to be inside the list.  \<open>play_from_queue\<close> is the same for the head
  popped from the queue: \<open>queue.pop(0)\<close> comes first, the two assignments last.
\<close>

definition start_track :: "world \<Rightarrow> state \<Rightarrow> outcome" where
  "start_track w st =
     (let song = current_playlist st ! nat (current_song_index st)
      in case play_song w song st of
           Returned ok st1 \<Rightarrow> Continue (st1\<lparr>now_playing_song := Some song\<rparr>)
         | Raised x st1 \<Rightarrow> Crash x st1)"

definition play_from_queue :: "world \<Rightarrow> path \<Rightarrow> path list \<Rightarrow> state \<Rightarrow> outcome" where
  "play_from_queue w next_song rest st =
     (case play_song w next_song (st\<lparr>queue := rest\<rparr>) of
        Returned ok st1 \<Rightarrow>
          Continue (st1\<lparr>now_playing_song := Some next_song, current_song_index := - 1\<rparr>)
      | Raised x st1 \<Rightarrow> Crash x st1)"

definition on_song_end :: "world \<Rightarrow> state \<Rightarrow> outcome" where
  "on_song_end w st =
     (case queue st of
        next_song # rest \<Rightarrow> play_from_queue w next_song rest st
      | [] \<Rightarrow>
          if current_playlist st \<noteq> [] then
            start_track w
              (st\<lparr>current_song_index :=
                    (current_song_index st + 1) mod int (length (current_playlist st))\<rparr>)
          else Continue st)"

text \<open>The \<open>for event in pygame.event.get()\<close> loop, over the \<open>USEREVENT\<close>s it returns.\<close>

primrec handle_events :: "world \<Rightarrow> nat \<Rightarrow> state \<Rightarrow> outcome" where
  "handle_events w 0 st = Continue st"
| "handle_events w (Suc n) st =
     (case on_song_end w st of
        Continue st' \<Rightarrow> handle_events w n st'
      | stopped \<Rightarrow> stopped)"

subsection \<open>The directory listing and the menu\<close>

definition audio_extensions :: "string list" where
  "audio_extensions =
     [''.mp3'', ''.wav'', ''.ogg'', ''.flac'', ''.aiff'', ''.aif'', ''.m4a'', ''.aac'']"

definition endswith :: "string \<Rightarrow> string list \<Rightarrow> bool" where
  "endswith f exts = list_ex (\<lambda>e. suffix e f) exts"

definition folders_of :: "world \<Rightarrow> path \<Rightarrow> string list \<Rightarrow> string list" where
  "folders_of w cur all_contents = filter (\<lambda>d. isdir w (join cur d)) all_contents"

definition audio_files_of :: "string list \<Rightarrow> string list" where
  "audio_files_of all_contents = filter (\<lambda>f. endswith f audio_extensions) all_contents"

definition view_playlist_of :: "path \<Rightarrow> string list \<Rightarrow> path list" where
  "view_playlist_of cur audio_files = map (join cur) audio_files"

definition start_index :: "config \<Rightarrow> int" where
  "start_index c = current_page c * page_size c"

definition paginated :: "config \<Rightarrow> string list \<Rightarrow> string list" where
  "paginated c audio_files =
     py_slice audio_files (start_index c) (start_index c + page_size c)"

text \<open>
  \<open>item_map\<close> is built with a counter starting at 1: the parent entry when the current
  directory is not the root, then the folders, then the audio files of the current page.
\<close>

definition menu_entries :: "world \<Rightarrow> state \<Rightarrow> string list \<Rightarrow> string list \<Rightarrow> path list" where
  "menu_entries w st folders audio_files =
     (if current_path st \<noteq> root w then [''..''] else [])
     @ map (join (current_path st)) folders
     @ map (join (current_path st)) (paginated (config st) audio_files)"

definition item_map :: "path list \<Rightarrow> int \<Rightarrow> path option" where
  "item_map entries = map_of (zip [1 .. int (length entries)] entries)"

subsection \<open>The command handlers\<close>

definition truthy :: "path option \<Rightarrow> bool" where
  "truthy s = (case s of None \<Rightarrow> False | Some p \<Rightarrow> p \<noteq> [])"

definition build_playlist :: "world \<Rightarrow> bool \<Rightarrow> path list \<Rightarrow> path list" where
  "build_playlist w shuffled view_playlist =
     (if shuffled then shuffle (randbelow w) view_playlist else sort view_playlist)"

definition cmd_add :: "world \<Rightarrow> path list \<Rightarrow> state \<Rightarrow> state" where
  "cmd_add w entries st =
     (case parse_int w (add_line w) of
        None \<Rightarrow> say InvalidAddInput st
      | Some add_choice \<Rightarrow>
          (case item_map entries add_choice of
             Some p \<Rightarrow>
               if isfile w p then say (AddedToQueue p) (st\<lparr>queue := queue st @ [p]\<rparr>)
               else say InvalidSelection st
           | None \<Rightarrow> say InvalidSelection st))"

definition cmd_clear :: "state \<Rightarrow> state" where
  "cmd_clear st = say QueueCleared (st\<lparr>queue := []\<rparr>)"

definition set_volume :: "world \<Rightarrow> rat \<Rightarrow> state \<Rightarrow> state" where
  "set_volume w v st =
     save_config w
       (call_mixer (SetVolume v) (st\<lparr>config := (config st)\<lparr>volume := v\<rparr>\<rparr>))"

definition cmd_volume_up :: "world \<Rightarrow> state \<Rightarrow> state" where
  "cmd_volume_up w st =
     set_volume w (min 1 (round64 (volume (config st) + tenth))) st"

definition cmd_volume_down :: "world \<Rightarrow> state \<Rightarrow> state" where
  "cmd_volume_down w st =
     set_volume w (max 0 (round64 (volume (config st) - tenth))) st"

definition cmd_pause :: "world \<Rightarrow> state \<Rightarrow> state" where
  "cmd_pause w st =
     (if get_busy w then (call_mixer Pause st)\<lparr>is_paused := True\<rparr>
      else if is_paused st then (call_mixer Unpause st)\<lparr>is_paused := False\<rparr>
      else st)"

definition cmd_next :: "world \<Rightarrow> state \<Rightarrow> outcome" where
  "cmd_next w st =
     (case queue st of
        next_song # rest \<Rightarrow> play_from_queue w next_song rest st
      | [] \<Rightarrow>
          if current_playlist st \<noteq> [] \<and> current_song_index st \<noteq> - 1 then
            start_track w
              (st\<lparr>current_song_index :=
                    (current_song_index st + 1) mod int (length (current_playlist st))\<rparr>)
          else Continue st)"

definition cmd_previous :: "world \<Rightarrow> state \<Rightarrow> outcome" where
  "cmd_previous w st =
     (if current_playlist st \<noteq> [] \<and> current_song_index st \<noteq> - 1 then
        start_track w
          (st\<lparr>current_song_index :=
                (current_song_index st - 1 + int (length (current_playlist st)))
                  mod int (length (current_playlist st))\<rparr>)
      else Continue st)"

definition cmd_shuffle_play :: "world \<Rightarrow> path list \<Rightarrow> state \<Rightarrow> outcome" where
  "cmd_shuffle_play w view_playlist st =
     (if view_playlist \<noteq> [] then
        start_track w
          ((save_config w (st\<lparr>config := (config st)\<lparr>shuffle_on := True\<rparr>\<rparr>))
             \<lparr>current_playlist := shuffle (randbelow w) view_playlist,
              current_song_index := 0\<rparr>)
      else Continue st)"

definition cmd_toggle_shuffle :: "world \<Rightarrow> path list \<Rightarrow> state \<Rightarrow> state" where
  "cmd_toggle_shuffle w view_playlist st =
     (let st1 = save_config w
                  (st\<lparr>config := (config st)\<lparr>shuffle_on := \<not> shuffle_on (config st)\<rparr>\<rparr>);
          st2 = st1\<lparr>current_playlist :=
                      build_playlist w (shuffle_on (config st1)) view_playlist\<rparr>
      in if truthy (now_playing_song st2) \<and> get_busy w \<and> current_song_index st2 \<noteq> - 1
         then (case index_of (current_playlist st2) (the (now_playing_song st2)) of
                 Some i \<Rightarrow> st2\<lparr>current_song_index := int i\<rparr>
               | None \<Rightarrow> st2\<lparr>current_song_index := - 1\<rparr>)
         else st2)"

definition cmd_quit :: "world \<Rightarrow> state \<Rightarrow> state" where
  "cmd_quit w st =
     say Exiting
       (call_mixer MixerQuit (if get_busy w then call_mixer Stop st else st))"

definition cmd_next_page :: "world \<Rightarrow> string list \<Rightarrow> state \<Rightarrow> state" where
  "cmd_next_page w audio_files st =
     save_config w
       (st\<lparr>config := (config st)\<lparr>current_page :=
              (if start_index (config st) + page_size (config st) < int (length audio_files)
               then current_page (config st) + 1 else 0)\<rparr>\<rparr>)"

definition cmd_previous_page :: "world \<Rightarrow> state \<Rightarrow> state" where
  "cmd_previous_page w st =
     save_config w
       (st\<lparr>config := (config st)\<lparr>current_page := max 0 (current_page (config st) - 1)\<rparr>\<rparr>)"

definition enter_directory :: "world \<Rightarrow> path \<Rightarrow> state \<Rightarrow> state" where
  "enter_directory w p st =
     save_config w (st\<lparr>current_path := p, config := (config st)\<lparr>current_page := 0\<rparr>\<rparr>)"

text \<open>
  The handler of a typed number runs inside \<open>try\<close> with \<open>except (ValueError, IndexError)\<close>:
  \<open>caught\<close> tells which exceptions that clause catches.  Selecting a file: the playlist
  and the index are assigned before \<open>current_playlist[current_song_index]\<close> is read, so
  the \<open>IndexError\<close> of an empty playlist leaves both assignments in place; so does an
  exception of the load that the clause catches, and one that it does not catch ends the
  program.
\<close>

definition caught :: "exn \<Rightarrow> bool" where
  "caught x =
     (case x of ValueError e \<Rightarrow> True | IndexError e \<Rightarrow> True | OtherException e \<Rightarrow> False)"

definition select_file :: "world \<Rightarrow> path list \<Rightarrow> path \<Rightarrow> state \<Rightarrow> outcome" where
  "select_file w view_playlist selected st =
     (let pl = build_playlist w (shuffle_on (config st)) view_playlist;
          i = (case index_of pl selected of Some i \<Rightarrow> int i | None \<Rightarrow> 0);
          st1 = st\<lparr>current_playlist := pl, current_song_index := i\<rparr>
      in if pl = [] then Continue (say InvalidInput st1)
         else (case start_track w st1 of
                 Crash x st2 \<Rightarrow>
                   if caught x then Continue (say InvalidInput st2) else Crash x st2
               | out \<Rightarrow> out))"

definition cmd_number :: "world \<Rightarrow> path list \<Rightarrow> path list \<Rightarrow> state \<Rightarrow> outcome" where
  "cmd_number w entries view_playlist st =
     (case parse_int w (choice w) of
        None \<Rightarrow> Continue (say InvalidInput st)
      | Some choice_num \<Rightarrow>
          (case item_map entries choice_num of
             None \<Rightarrow> Continue (say InvalidNumber st)
           | Some selected \<Rightarrow>
               if selected = ''..''
               then Continue (enter_directory w (dirname (current_path st)) st)
               else if isdir w selected then Continue (enter_directory w selected st)
               else if isfile w selected then select_file w view_playlist selected st
               else Continue st))"

definition dispatch ::
  "world \<Rightarrow> string list \<Rightarrow> path list \<Rightarrow> path list \<Rightarrow> state \<Rightarrow> outcome" where
  "dispatch w audio_files view_playlist entries st =
     (let c = choice w in
      if c = ''add'' then Continue (cmd_add w entries st)
      else if c = ''clear'' then Continue (cmd_clear st)
      else if c = ''+'' then Continue (cmd_volume_up w st)
      else if c = ''-'' then Continue (cmd_volume_down w st)
      else if c \<in> set [''pause'', '' ''] then Continue (cmd_pause w st)
      else if c = ''>'' then cmd_next w st
      else if c = ''<'' then cmd_previous w st
      else if c = ''s'' then cmd_shuffle_play w view_playlist st
      else if c = ''t'' then Continue (cmd_toggle_shuffle w view_playlist st)
      else if c = ''q'' then Quit (cmd_quit w st)
      else if c = ''n'' then Continue (cmd_next_page w audio_files st)
      else if c = ''p'' then Continue (cmd_previous_page w st)
      else cmd_number w entries view_playlist st)"

subsection \<open>One iteration of the loop, and runs\<close>

text \<open>
  An iteration handles the end-of-track events, then lists the current directory and
  serves the line typed at the prompt; an exception raised while the events are handled
  ends the program before the directory is listed.
\<close>

definition iteration :: "world \<Rightarrow> state \<Rightarrow> outcome" where
  "iteration w st0 =
     (case handle_events w (end_events w) st0 of
        Continue st \<Rightarrow>
          (case listdir w (current_path st) of
             FileNotFoundError \<Rightarrow> Abort (say (DirectoryNotFound (current_path st)) st)
           | OSError e \<Rightarrow> Crash (OtherException e) st
           | Entries names \<Rightarrow>
               let all_contents = sort names;
                   folders = folders_of w (current_path st) all_contents;
                   audio_files = audio_files_of all_contents;
                   view_playlist = view_playlist_of (current_path st) audio_files
               in dispatch w audio_files view_playlist
                    (menu_entries w st folders audio_files) st)
      | stopped \<Rightarrow> stopped)"

text \<open>A run feeds the loop one world per iteration and stops with the loop.\<close>

fun run :: "world list \<Rightarrow> state \<Rightarrow> outcome" where
  "run [] st = Continue st"
| "run (w # ws) st =
     (case iteration w st of Continue st' \<Rightarrow> run ws st' | stopped \<Rightarrow> stopped)"

text \<open>
  The variables as \<open>reaganPLAYER\<close> sets them before the loop: \<open>c\<close> is the configuration
  that \<open>load_config\<close> returned, \<open>stored\<close> what \<open>reaganplayer.json\<close> held when it
  returned, and \<open>folder\<close> the music folder chosen at the first prompt, an existing
  directory.
\<close>

definition initial_state :: "world \<Rightarrow> config \<Rightarrow> config option \<Rightarrow> path \<Rightarrow> state" where
  "initial_state w c stored folder =
     save_config w
       \<lparr>config = c\<lparr>music_folder := folder\<rparr>,
        current_path = root w,
        now_playing_song = None,
        is_paused = False,
        queue = [],
        current_playlist = [],
        current_song_index = - 1,
        config_file = stored,
        mixer_log = [SetVolume (volume c)],
        console = []\<rparr>"

subsection \<open>Predicates on states and outcomes, for stating the claims\<close>

text \<open>The state a handler, an iteration or a run ends in.\<close>

fun final_state :: "outcome \<Rightarrow> state" where
  "final_state (Continue st) = st"
| "final_state (Quit st) = st"
| "final_state (Abort st) = st"
| "final_state (Crash e st) = st"

text \<open>The lines printed from \<open>st\<close> to \<open>st'\<close>.\<close>

definition printed :: "state \<Rightarrow> state \<Rightarrow> message list" where
  "printed st st' = drop (length (console st)) (console st')"

text \<open>
  \<open>started w catching p st out\<close>: the handler that ended with \<open>out\<close> from \<open>st\<close> asked
  the mixer for the track \<open>p\<close>, once.  The load succeeded, the track plays and is the
  current track; or the mixer refused it, the last line printed is the error naming the
  file, and it is the current track all the same; or the load raised another exception,
  no error about a track is printed, the current track is the one it was, and the program
  ends with the exception, unless the handler is the one that catches it (\<open>catching\<close>)
  and prints that the input is invalid.
\<close>

definition started :: "world \<Rightarrow> bool \<Rightarrow> path \<Rightarrow> state \<Rightarrow> outcome \<Rightarrow> bool" where
  "started w catching p st out =
     (let st' = final_state out in
      case load w p of
        Loaded \<Rightarrow>
          out = Continue st' \<and> mixer_log st' = mixer_log st @ [Load p, Play]
          \<and> now_playing_song st' = Some p
      | PygameError e \<Rightarrow>
          out = Continue st' \<and> mixer_log st' = mixer_log st @ [Load p]
          \<and> now_playing_song st' = Some p
          \<and> console st' \<noteq> [] \<and> last (console st') = ErrorLoadingSong (basename p) e
      | LoadRaises x \<Rightarrow>
          mixer_log st' = mixer_log st @ [Load p]
          \<and> now_playing_song st' = now_playing_song st
          \<and> (\<forall>b e. ErrorLoadingSong b e \<notin> set (printed st st'))
          \<and> (if catching \<and> caught x
              then out = Continue st' \<and> console st' \<noteq> [] \<and> last (console st') = InvalidInput
              else out = Crash x st'))"

text \<open>
  \<open>attempt w catching st out\<close>: the handler kept the paused flag, and either the mixer
  received no call or one track was started in the sense of \<open>started\<close>.
\<close>

definition attempt :: "world \<Rightarrow> bool \<Rightarrow> state \<Rightarrow> outcome \<Rightarrow> bool" where
  "attempt w catching st out =
     (is_paused (final_state out) = is_paused st
      \<and> (mixer_log (final_state out) = mixer_log st
         \<or> (\<exists>p. started w catching p st out)))"

text \<open>
  \<open>untouched q st\<close>: the path \<open>q\<close> is not in the queue, not in the active playlist, not
  the current track, and the mixer was never asked to load it.
\<close>

definition untouched :: "path \<Rightarrow> state \<Rightarrow> bool" where
  "untouched q st =
     (q \<notin> set (queue st) \<and> q \<notin> set (current_playlist st)
      \<and> now_playing_song st \<noteq> Some q \<and> Load q \<notin> set (mixer_log st))"

subsection \<open>Upper-case and mixed-case spellings of an extension\<close>

text \<open>
  The source never folds case; these definitions only give a name to the file names the
  case-sensitive match excludes: \<open>case_variant v\<close> says that \<open>v\<close> becomes a recognised
  extension once its ASCII capitals are lowered, and is not one as it stands.  \<open>dotted s\<close>
  is the shape all extensions have: a dot followed by characters that are not dots.
\<close>

definition ascii_lower :: "char \<Rightarrow> char" where
  "ascii_lower c =
     (if CHR ''A'' \<le> c \<and> c \<le> CHR ''Z'' then char_of (of_char c + (32::nat)) else c)"

definition case_variant :: "string \<Rightarrow> bool" where
  "case_variant v = (map ascii_lower v \<in> set audio_extensions \<and> v \<notin> set audio_extensions)"

definition dotted :: "string \<Rightarrow> bool" where
  "dotted s = (case s of [] \<Rightarrow> False | c # r \<Rightarrow> c = CHR ''.'' \<and> CHR ''.'' \<notin> set r)"

subsection \<open>A sample music folder\<close>

text \<open>
  \<open>/music\<close> holds two tracks (\<open>b.mp3\<close> is damaged: the mixer refuses it), a track
  spelled in capitals, a text file, and three folders, one of them named like a track;
  \<open>/music/big\<close> holds 25 tracks and \<open>/music/live\<close> none: it holds a picture and a
  folder whose name is spelled like a track in capitals.  The mixer loads the regular
  files it can read, and raises \<open>FileNotFoundError\<close> for a directory and for a path where
  nothing is, such as \<open>/music/gone.mp3\<close>, a track deleted since it was queued.
\<close>

definition music_names :: "string list" where
  "music_names =
     [''b.mp3'', ''live.mp3'', ''SONG.MP3'', ''a.mp3'', ''live'', ''notes.txt'', ''big'']"

definition big_names :: "string list" where
  "big_names = map (\<lambda>c. c # ''.mp3'') ''abcdefghijklmnopqrstuvwxy''"

definition decimal :: "string \<Rightarrow> int option" where
  "decimal s =
     (if s \<noteq> [] \<and> list_all (\<lambda>c. CHR ''0'' \<le> c \<and> c \<le> CHR ''9'') s
      then Some (foldl (\<lambda>n c. 10 * n + (int (of_char c) - 48)) 0 s)
      else None)"

definition sample_node :: "path \<Rightarrow> node option" where
  "sample_node p =
     (if p \<in> set [''/music'', ''/music/big'', ''/music/live'', ''/music/live.mp3'',
                   ''/music/live/ENCORE.MP3'']
        then Some Directory
      else if p \<in> set [''/music/a.mp3'', ''/music/b.mp3'', ''/music/SONG.MP3'',
                        ''/music/notes.txt'', ''/music/live/cover.jpg'']
              \<or> p \<in> set (map (join ''/music/big'') big_names)
        then Some RegularFile
      else None)"

definition sample_world :: "string \<Rightarrow> string \<Rightarrow> world" where
  "sample_world typed number =
     \<lparr>listdir = (\<lambda>p. if p = ''/music'' then Entries music_names
                     else if p = ''/music/big'' then Entries big_names
                     else if p = ''/music/live'' then Entries [''cover.jpg'', ''ENCORE.MP3'']
                     else if p = ''/music/live/ENCORE.MP3'' then Entries []
                     else FileNotFoundError),
      node_at = sample_node,
      load = (\<lambda>p. if p \<in> set [''/music/b.mp3'', ''/music/notes.txt'',
                                ''/music/live/cover.jpg'']
                     then PygameError ''Unrecognized audio format''
                   else if sample_node p = Some RegularFile then Loaded
                   else LoadRaises (OtherException ''FileNotFoundError'')),
      get_busy = True,
      end_events = 0,
      randbelow = (\<lambda>n. 0),
      write_error = None,
      parse_int = decimal,
      choice = typed,
      add_line = number,
      root = ''/music''\<rparr>"

definition sample_config :: config where
  "sample_config =
     \<lparr>music_folder = ''/music'', volume = 1 / 2, shuffle_on = False,
      page_size = 10, current_page = 0\<rparr>"

definition sample_state ::
  "path \<Rightarrow> path option \<Rightarrow> path list \<Rightarrow> path list \<Rightarrow> int \<Rightarrow> state" where
  "sample_state cur playing queued playlist i =
     \<lparr>config = sample_config,
      current_path = cur,
      now_playing_song = playing,
      is_paused = False,
      queue = queued,
      current_playlist = playlist,
      current_song_index = i,
      config_file = Some sample_config,
      mixer_log = [],
      console = []\<rparr>"

text \<open>The sample state in \<open>/music/big\<close>, showing page \<open>n\<close>.\<close>

definition on_page :: "int \<Rightarrow> state" where
  "on_page n =
     (sample_state ''/music/big'' None [] [] (- 1))
       \<lparr>config := sample_config\<lparr>current_page := n\<rparr>\<rparr>"

section \<open>Facts about binary64 rounding\<close>

lemma power_two_le_cast: "2 ^ k \<le> (n::nat) \<Longrightarrow> (2::rat) ^ k \<le> of_nat n"
proof -
  assume "2 ^ k \<le> n"
  then have "(of_nat (2 ^ k) :: rat) \<le> of_nat n"
    by (simp only: of_nat_le_iff)
  then show ?thesis
    by simp
qed

lemma less_power_two_cast: "(n::nat) < 2 ^ k \<Longrightarrow> (of_nat n :: rat) + 1 \<le> 2 ^ k"
proof -
  assume "n < 2 ^ k"
  then have "Suc n \<le> 2 ^ k"
    by simp
  then have "(of_nat (Suc n) :: rat) \<le> of_nat (2 ^ k)"
    by (simp only: of_nat_le_iff)
  then show ?thesis
    by simp
qed

lemma floorlog_two:
  assumes "0 < (n::nat)"
  shows "0 < floorlog 2 n" "(2::rat) ^ (floorlog 2 n - 1) \<le> of_nat n"
    "(of_nat n :: rat) + 1 \<le> 2 ^ floorlog 2 n"
proof -
  show "0 < floorlog 2 n"
    using assms by (simp add: floorlog_def)
  from floorlog_bounds [OF assms, of 2]
  have b: "2 ^ (floorlog 2 n - 1) \<le> n" "n < 2 ^ floorlog 2 n"
    by simp_all
  from b(1) show "(2::rat) ^ (floorlog 2 n - 1) \<le> of_nat n"
    by (rule power_two_le_cast)
  from b(2) show "(of_nat n :: rat) + 1 \<le> 2 ^ floorlog 2 n"
    by (rule less_power_two_cast)
qed

lemma exponent_bounds:
  assumes "x \<noteq> 0"
  shows "2 powi exponent x \<le> \<bar>x\<bar> \<and> \<bar>x\<bar> < 2 powi (exponent x + 1)"
proof (cases "1 \<le> \<bar>x\<bar>")
  case True
  let ?n = "nat \<lfloor>\<bar>x\<bar>\<rfloor>"
  let ?L = "floorlog 2 ?n"
  have n: "0 < ?n"
    using True by simp
  note L = floorlog_two [OF n]
  have e: "exponent x = int (?L - 1)" "int (?L - 1) + 1 = int ?L"
    using True L(1) by (simp_all add: exponent_def)
  have cast: "(of_nat ?n :: rat) = of_int \<lfloor>\<bar>x\<bar>\<rfloor>"
    using True by simp
  have "(of_nat ?n :: rat) \<le> \<bar>x\<bar>"
    unfolding cast by (rule of_int_floor_le)
  with L(2) have lo: "(2::rat) ^ (?L - 1) \<le> \<bar>x\<bar>"
    by (rule order.trans)
  have "\<bar>x\<bar> < of_nat ?n + 1"
    unfolding cast by linarith
  then have hi: "\<bar>x\<bar> < 2 ^ ?L"
    using L(3) by (rule less_le_trans)
  from lo hi show ?thesis
    unfolding e power_int_of_nat by (rule conjI)
next
  case False
  let ?y = "1 / \<bar>x\<bar>"
  let ?m = "nat (\<lceil>?y\<rceil> - 1)"
  let ?L = "floorlog 2 ?m"
  have x: "0 < \<bar>x\<bar>" "\<bar>x\<bar> < 1"
    using assms False by simp_all
  then have y: "1 < ?y"
    by simp
  then have c: "2 \<le> \<lceil>?y\<rceil>"
    by (simp add: le_ceiling_iff)
  then have m: "0 < ?m"
    by simp
  note L = floorlog_two [OF m]
  have "0 \<le> \<lceil>?y\<rceil> - 1"
    using c by linarith
  then have mi: "int ?m = \<lceil>?y\<rceil> - 1"
    by (rule nat_0_le)
  have "(of_nat ?m :: rat) = of_int (int ?m)"
    by (rule of_int_of_nat_eq [symmetric])
  also have "\<dots> = of_int (\<lceil>?y\<rceil> - 1)"
    by (simp only: mi)
  also have "\<dots> = of_int \<lceil>?y\<rceil> - 1"
    by (simp only: of_int_diff of_int_1)
  finally have cast: "(of_nat ?m :: rat) = of_int \<lceil>?y\<rceil> - 1" .
  have e: "exponent x = - int ?L" "- int ?L + 1 = - int (?L - 1)"
    using False L(1) by (simp_all add: exponent_def)
  have "?y \<le> of_nat ?m + 1"
    unfolding cast by simp
  then have "?y \<le> 2 ^ ?L"
    using L(3) by (rule order.trans)
  then have "1 \<le> 2 ^ ?L * \<bar>x\<bar>"
    using x(1) by (simp add: pos_divide_le_eq mult.commute)
  then have lo: "inverse (2 ^ ?L) \<le> \<bar>x\<bar>"
    by (simp add: inverse_eq_divide pos_divide_le_eq mult.commute)
  have "of_nat ?m < ?y"
    unfolding cast using ceiling_correct [of ?y] by simp
  with L(2) have "(2::rat) ^ (?L - 1) < ?y"
    by (rule le_less_trans)
  then have "2 ^ (?L - 1) * \<bar>x\<bar> < 1"
    using x(1) by (simp add: pos_less_divide_eq)
  then have hi: "\<bar>x\<bar> < inverse (2 ^ (?L - 1))"
    by (simp add: inverse_eq_divide pos_less_divide_eq mult.commute)
  from lo hi show ?thesis
    unfolding e power_int_minus power_int_of_nat by (rule conjI)
qed

lemma round_half_even_between:
  "\<lfloor>y\<rfloor> \<le> round_half_even y \<and> round_half_even y \<le> \<lceil>y\<rceil>"
proof -
  have "\<lceil>y\<rceil> = \<lfloor>y\<rfloor> + 1" if "0 < y - of_int \<lfloor>y\<rfloor>"
    using that by (simp add: ceiling_altdef)
  then show ?thesis
    by (auto simp: round_half_even_def Let_def not_less)
qed

lemma round_half_even_near: "\<bar>of_int (round_half_even y) - y\<bar> \<le> 1 / 2"
proof -
  have "of_int \<lfloor>y\<rfloor> \<le> y" "y < of_int \<lfloor>y\<rfloor> + 1"
    by linarith+
  then show ?thesis
    by (auto simp: round_half_even_def Let_def)
qed

lemma round_half_even_nonneg: "0 \<le> y \<Longrightarrow> 0 \<le> round_half_even y"
  using round_half_even_between [of y] by (simp add: order.trans [of 0 "\<lfloor>y\<rfloor>"])

lemma round_half_even_le:
  assumes "y \<le> of_int n"
  shows "round_half_even y \<le> n"
proof -
  from assms have "\<lceil>y\<rceil> \<le> n"
    by (simp add: ceiling_le_iff)
  with round_half_even_between [of y] show ?thesis
    by linarith
qed

lemma exponent_small: "\<bar>x\<bar> < 2 \<Longrightarrow> exponent x \<le> 0"
proof (cases "1 \<le> \<bar>x\<bar>")
  case True
  assume "\<bar>x\<bar> < 2"
  with True have "\<lfloor>\<bar>x\<bar>\<rfloor> = 1"
    by (simp add: floor_unique)
  then show ?thesis
    using True by (simp add: exponent_def compute_floorlog)
next
  case False
  then show ?thesis
    by (simp add: exponent_def)
qed

lemma ulp_pos: "0 < ulp x"
  by (simp add: ulp_def)

lemma ulp_small:
  assumes "\<bar>x\<bar> < 2"
  shows "ulp x \<le> 1 / 2 ^ 52" and "\<exists>n. 1 / ulp x = of_int n"
proof -
  let ?k = "max (exponent x - 52) (- 1074)"
  have k: "?k \<le> - 52"
    using exponent_small [OF assms] by simp
  then have "(2::rat) powi ?k \<le> 2 powi (- 52)"
    by (intro power_int_increasing) simp_all
  then show "ulp x \<le> 1 / 2 ^ 52"
    by (simp add: ulp_def power_int_minus field_simps)
  from k have "ulp x = 1 / 2 ^ nat (- ?k)"
    unfolding ulp_def by (simp add: power_int_def field_simps)
  then have "1 / ulp x = of_int (2 ^ nat (- ?k))"
    by simp
  then show "\<exists>n. 1 / ulp x = of_int n" ..
qed

lemma round64_near: "\<bar>round64 x - x\<bar> \<le> ulp x / 2"
proof (cases "x = 0")
  case True
  then show ?thesis
    using ulp_pos [of x] by (simp add: round64_def)
next
  case False
  have "\<bar>of_int (round_half_even (x / ulp x)) - x / ulp x\<bar> * ulp x \<le> 1 / 2 * ulp x"
    using round_half_even_near [of "x / ulp x"] ulp_pos [of x]
    by (intro mult_right_mono) simp_all
  moreover have "\<bar>of_int (round_half_even (x / ulp x)) - x / ulp x\<bar> * ulp x
      = \<bar>of_int (round_half_even (x / ulp x)) * ulp x - x\<bar>"
  proof -
    have "\<bar>of_int (round_half_even (x / ulp x)) - x / ulp x\<bar> * ulp x
        = \<bar>(of_int (round_half_even (x / ulp x)) - x / ulp x) * ulp x\<bar>"
      using ulp_pos [of x] by (simp add: abs_mult)
    also have "(of_int (round_half_even (x / ulp x)) - x / ulp x) * ulp x
        = of_int (round_half_even (x / ulp x)) * ulp x - x"
      using ulp_pos [of x] by (simp add: left_diff_distrib)
    finally show ?thesis .
  qed
  ultimately show ?thesis
    using False by (simp add: round64_def)
qed

lemma round64_error: "\<bar>x\<bar> < 2 \<Longrightarrow> \<bar>round64 x - x\<bar> \<le> 1 / 2 ^ 53"
  using round64_near [of x] ulp_small(1) [of x] by simp

lemma round64_nonneg: "0 \<le> x \<Longrightarrow> 0 \<le> round64 x"
  using ulp_pos [of x] by (simp add: round64_def round_half_even_nonneg)

lemma round64_le_one:
  assumes "x \<le> 1" "- 2 < x"
  shows "round64 x \<le> 1"
proof (cases "x = 0")
  case True
  then show ?thesis by (simp add: round64_def)
next
  case False
  from assms have "\<bar>x\<bar> < 2"
    by simp
  from ulp_small(2) [OF this] obtain n where n: "1 / ulp x = of_int n"
    by blast
  have "x / ulp x \<le> 1 / ulp x"
    using assms(1) ulp_pos [of x] by (simp add: divide_right_mono)
  then have "round_half_even (x / ulp x) \<le> n"
    unfolding n by (rule round_half_even_le)
  then have "(of_int (round_half_even (x / ulp x)) :: rat) \<le> 1 / ulp x"
    unfolding n by simp
  then have "of_int (round_half_even (x / ulp x)) * ulp x \<le> 1"
    using ulp_pos [of x] by (simp add: pos_le_divide_eq)
  with False show ?thesis
    by (simp add: round64_def)
qed

lemma tenth_error: "tenth - 1 / 10 = 1 / 180143985094819840" "0 < tenth" "tenth < 1"
  by (simp_all add: tenth_def)

section \<open>Facts about the handlers\<close>

subsection \<open>What the basic operations change\<close>

lemma save_config_fields [simp]:
  "config (save_config w st) = config st"
  "current_path (save_config w st) = current_path st"
  "now_playing_song (save_config w st) = now_playing_song st"
  "is_paused (save_config w st) = is_paused st"
  "queue (save_config w st) = queue st"
  "current_playlist (save_config w st) = current_playlist st"
  "current_song_index (save_config w st) = current_song_index st"
  "mixer_log (save_config w st) = mixer_log st"
  by (simp_all add: save_config_def say_def split: option.split write_failure.split)

lemma save_config_file:
  "write_error w = None \<Longrightarrow> config_file (save_config w st) = Some (config st)"
  by (simp add: save_config_def)

lemma save_config_console:
  "console (save_config w st) =
     console st @ (case write_error w of
                     None \<Rightarrow> []
                   | Some (CannotOpen e) \<Rightarrow> [ErrorSavingConfiguration e]
                   | Some (CannotWrite e) \<Rightarrow> [ErrorSavingConfiguration e])"
  by (simp add: save_config_def say_def split: option.split write_failure.split)

lemma play_song_eq:
  "play_song w p st =
     (case load w p of
        Loaded \<Rightarrow> Returned True (st\<lparr>mixer_log := mixer_log st @ [Load p, Play]\<rparr>)
      | PygameError e \<Rightarrow>
          Returned False
            (st\<lparr>mixer_log := mixer_log st @ [Load p],
                console := console st @ [ErrorLoadingSong (basename p) e]\<rparr>)
      | LoadRaises x \<Rightarrow> Raised x (st\<lparr>mixer_log := mixer_log st @ [Load p]\<rparr>))"
  by (simp add: play_song_def call_mixer_def say_def split: load_result.split)

subsection \<open>Starting a track\<close>

lemma start_track_eq:
  "start_track w st =
     (let p = current_playlist st ! nat (current_song_index st)
      in case load w p of
           Loaded \<Rightarrow>
             Continue (st\<lparr>now_playing_song := Some p,
                          mixer_log := mixer_log st @ [Load p, Play]\<rparr>)
         | PygameError e \<Rightarrow>
             Continue (st\<lparr>now_playing_song := Some p,
                          mixer_log := mixer_log st @ [Load p],
                          console := console st @ [ErrorLoadingSong (basename p) e]\<rparr>)
         | LoadRaises x \<Rightarrow> Crash x (st\<lparr>mixer_log := mixer_log st @ [Load p]\<rparr>))"
  by (simp add: start_track_def play_song_eq Let_def split: load_result.split)

lemma play_from_queue_eq:
  "play_from_queue w p ps st =
     (case load w p of
        Loaded \<Rightarrow>
          Continue (st\<lparr>now_playing_song := Some p, queue := ps, current_song_index := - 1,
                       mixer_log := mixer_log st @ [Load p, Play]\<rparr>)
      | PygameError e \<Rightarrow>
          Continue (st\<lparr>now_playing_song := Some p, queue := ps, current_song_index := - 1,
                       mixer_log := mixer_log st @ [Load p],
                       console := console st @ [ErrorLoadingSong (basename p) e]\<rparr>)
      | LoadRaises x \<Rightarrow>
          Crash x (st\<lparr>queue := ps, mixer_log := mixer_log st @ [Load p]\<rparr>))"
  by (simp add: play_from_queue_def play_song_eq split: load_result.split)

lemma start_track_keeps [simp]:
  "config (final_state (start_track w st)) = config st"
  "current_path (final_state (start_track w st)) = current_path st"
  "is_paused (final_state (start_track w st)) = is_paused st"
  "queue (final_state (start_track w st)) = queue st"
  "current_playlist (final_state (start_track w st)) = current_playlist st"
  "current_song_index (final_state (start_track w st)) = current_song_index st"
  "config_file (final_state (start_track w st)) = config_file st"
  by (simp_all add: start_track_eq Let_def split: load_result.split)

lemma start_track_mixer:
  "mixer_log (final_state (start_track w st)) =
     mixer_log st @ Load (current_playlist st ! nat (current_song_index st))
       # (if load w (current_playlist st ! nat (current_song_index st)) = Loaded
          then [Play] else [])"
  by (simp add: start_track_eq Let_def split: load_result.split)

lemma play_from_queue_keeps [simp]:
  "config (final_state (play_from_queue w p ps st)) = config st"
  "current_path (final_state (play_from_queue w p ps st)) = current_path st"
  "is_paused (final_state (play_from_queue w p ps st)) = is_paused st"
  "queue (final_state (play_from_queue w p ps st)) = ps"
  "current_playlist (final_state (play_from_queue w p ps st)) = current_playlist st"
  "config_file (final_state (play_from_queue w p ps st)) = config_file st"
  by (simp_all add: play_from_queue_eq split: load_result.split)

lemma play_from_queue_mixer:
  "mixer_log (final_state (play_from_queue w p ps st)) =
     mixer_log st @ Load p # (if load w p = Loaded then [Play] else [])"
  by (simp add: play_from_queue_eq split: load_result.split)

lemma on_song_end_keeps [simp]:
  "config (final_state (on_song_end w st)) = config st"
  "current_path (final_state (on_song_end w st)) = current_path st"
  "is_paused (final_state (on_song_end w st)) = is_paused st"
  "config_file (final_state (on_song_end w st)) = config_file st"
  "current_playlist (final_state (on_song_end w st)) = current_playlist st"
  by (simp_all add: on_song_end_def split: list.split)

text \<open>What every end-of-track event preserves, the whole loop over the events preserves.\<close>

lemma handle_events_preserves:
  assumes "\<And>s. P s \<Longrightarrow> P (final_state (on_song_end w s))" and "P st"
  shows "P (final_state (handle_events w n st))"
  using assms(2)
proof (induction n arbitrary: st)
  case 0
  then show ?case by simp
next
  case (Suc n)
  from assms(1) [OF Suc.prems] have step: "P (final_state (on_song_end w st))" .
  show ?case
  proof (cases "on_song_end w st")
    case (Continue st')
    with step Suc.IH [of st'] show ?thesis by simp
  qed (use step in simp_all)
qed

lemma handle_events_field:
  assumes "\<And>s. f (final_state (on_song_end w s)) = f s"
  shows "f (final_state (handle_events w n st)) = f st"
  by (rule handle_events_preserves [where P = "\<lambda>s. f s = f st"]) (simp_all add: assms)

lemma handle_events_keeps [simp]:
  "config (final_state (handle_events w n st)) = config st"
  "current_path (final_state (handle_events w n st)) = current_path st"
  "is_paused (final_state (handle_events w n st)) = is_paused st"
  "config_file (final_state (handle_events w n st)) = config_file st"
  "current_playlist (final_state (handle_events w n st)) = current_playlist st"
  by (rule handle_events_field, simp)+

lemma handle_events_Continue:
  assumes "handle_events w n st = Continue st1"
  shows "config st1 = config st" "current_path st1 = current_path st"
    "is_paused st1 = is_paused st" "config_file st1 = config_file st"
    "current_playlist st1 = current_playlist st"
  using handle_events_keeps [of w n st] by (simp_all add: assms)

subsection \<open>Which handler a command line reaches\<close>

lemma dispatch_next: "choice w = ''>'' \<Longrightarrow> dispatch w af vp es st = cmd_next w st"
  by (simp add: dispatch_def)
lemma dispatch_previous: "choice w = ''<'' \<Longrightarrow> dispatch w af vp es st = cmd_previous w st"
  by (simp add: dispatch_def)
lemma dispatch_shuffle_play: "choice w = ''s'' \<Longrightarrow> dispatch w af vp es st = cmd_shuffle_play w vp st"
  by (simp add: dispatch_def)
lemma dispatch_toggle: "choice w = ''t'' \<Longrightarrow> dispatch w af vp es st = Continue (cmd_toggle_shuffle w vp st)"
  by (simp add: dispatch_def)
lemma dispatch_next_page: "choice w = ''n'' \<Longrightarrow> dispatch w af vp es st = Continue (cmd_next_page w af st)"
  by (simp add: dispatch_def)
lemma dispatch_previous_page: "choice w = ''p'' \<Longrightarrow> dispatch w af vp es st = Continue (cmd_previous_page w st)"
  by (simp add: dispatch_def)
lemma dispatch_add: "choice w = ''add'' \<Longrightarrow> dispatch w af vp es st = Continue (cmd_add w es st)"
  by (simp add: dispatch_def)
lemma dispatch_clear: "choice w = ''clear'' \<Longrightarrow> dispatch w af vp es st = Continue (cmd_clear st)"
  by (simp add: dispatch_def)

subsection \<open>Positions, shuffles and playlists\<close>

lemma index_of_None: "index_of xs x = None \<longleftrightarrow> x \<notin> set xs"
  by (induction xs) auto

lemma index_of_Some:
  "index_of xs x = Some i \<longleftrightarrow> i < length xs \<and> xs ! i = x \<and> (\<forall>j<i. xs ! j \<noteq> x)"
proof (induction xs arbitrary: i)
  case Nil
  show ?case by simp
next
  case (Cons y ys)
  show ?case
  proof (cases "y = x")
    case True
    then show ?thesis by (cases i) auto
  next
    case False
    show ?thesis
    proof (cases i)
      case 0
      with False show ?thesis by auto
    next
      case (Suc k)
      have "(\<forall>j<Suc k. (y # ys) ! j \<noteq> x) \<longleftrightarrow> (\<forall>j<k. ys ! j \<noteq> x)"
        using False by (auto simp: less_Suc_eq_0_disj)
      with False Suc Cons.IH [of k] show ?thesis by auto
    qed
  qed
qed

lemma shuffle_loop_length: "length (shuffle_loop rb k xs) = length xs"
  by (induction k arbitrary: xs) (simp_all add: Let_def)

lemma shuffle_loop_mset: "k < length xs \<Longrightarrow> mset (shuffle_loop rb k xs) = mset xs"
proof (induction k arbitrary: xs)
  case 0
  show ?case by simp
next
  case (Suc k)
  let ?j = "rb (Suc (Suc k)) mod Suc (Suc k)"
  have j: "?j < length xs"
    using Suc.prems by (meson Suc_leI less_le_trans mod_less_divisor zero_less_Suc)
  have "mset (xs[Suc k := xs ! ?j, ?j := xs ! Suc k]) = mset xs"
    using mset_swap [OF j Suc.prems] .
  moreover have "k < length (xs[Suc k := xs ! ?j, ?j := xs ! Suc k])"
    using Suc.prems by simp
  ultimately show ?case
    using Suc.IH [of "xs[Suc k := xs ! ?j, ?j := xs ! Suc k]"] by (simp add: Let_def)
qed

lemma shuffle_mset: "mset (shuffle rb xs) = mset xs"
proof (cases xs)
  case Nil
  then show ?thesis by (simp add: shuffle_def)
next
  case (Cons y ys)
  then show ?thesis by (simp add: shuffle_def shuffle_loop_mset)
qed

lemma shuffle_Nil_iff: "shuffle rb xs = [] \<longleftrightarrow> xs = []"
  by (metis mset_zero_iff shuffle_mset)

lemma build_playlist_mset: "mset (build_playlist w b vp) = mset vp"
  by (simp add: build_playlist_def shuffle_mset)

subsection \<open>The listing and the queue\<close>

lemma sorted_filter_sort: "sorted (filter P (sort (xs :: string list)))"
  by (rule sorted_wrt_filter) simp

lemma iteration_listed:
  assumes "handle_events w (end_events w) st = Continue st1"
    and "listdir w (current_path st) = Entries names"
  shows "iteration w st =
     dispatch w (audio_files_of (sort names))
       (view_playlist_of (current_path st) (audio_files_of (sort names)))
       (menu_entries w st1
          (folders_of w (current_path st) (sort names)) (audio_files_of (sort names)))
       st1"
  using assms(2) by (simp add: iteration_def Let_def assms(1) handle_events_Continue [OF assms(1)])

lemma item_map_in_set: "item_map es n = Some p \<Longrightarrow> p \<in> set es"
  unfolding item_map_def by (meson map_of_SomeD set_zip_rightD)

lemma select_file_eq:
  "select_file w vp selected st =
     (let pl = build_playlist w (shuffle_on (config st)) vp;
          i = (case index_of pl selected of Some i \<Rightarrow> int i | None \<Rightarrow> 0);
          st1 = st\<lparr>current_playlist := pl, current_song_index := i\<rparr>;
          p = pl ! nat i
      in if pl = [] then Continue (st1\<lparr>console := console st @ [InvalidInput]\<rparr>)
         else case load w p of
                Loaded \<Rightarrow>
                  Continue (st1\<lparr>now_playing_song := Some p,
                                mixer_log := mixer_log st @ [Load p, Play]\<rparr>)
              | PygameError e \<Rightarrow>
                  Continue (st1\<lparr>now_playing_song := Some p,
                                mixer_log := mixer_log st @ [Load p],
                                console := console st @ [ErrorLoadingSong (basename p) e]\<rparr>)
              | LoadRaises x \<Rightarrow>
                  if caught x
                  then Continue (st1\<lparr>mixer_log := mixer_log st @ [Load p],
                                     console := console st @ [InvalidInput]\<rparr>)
                  else Crash x (st1\<lparr>mixer_log := mixer_log st @ [Load p]\<rparr>))"
  by (simp add: select_file_def start_track_eq Let_def say_def split: load_result.split)

lemma on_song_end_queue: "queue (final_state (on_song_end w st)) = tl (queue st)"
  by (simp add: on_song_end_def split: list.split)

lemma cmd_next_queue: "queue (final_state (cmd_next w st)) = tl (queue st)"
  by (simp add: cmd_next_def split: list.split)

lemma cmd_previous_queue: "queue (final_state (cmd_previous w st)) = queue st"
  by (simp add: cmd_previous_def)

lemma cmd_shuffle_play_queue: "queue (final_state (cmd_shuffle_play w vp st)) = queue st"
  by (simp add: cmd_shuffle_play_def)

lemma select_file_queue: "queue (final_state (select_file w vp selected st)) = queue st"
  by (simp add: select_file_eq Let_def split: load_result.split)

lemma cmd_number_queue: "queue (final_state (cmd_number w es vp st)) = queue st"
  by (simp add: cmd_number_def enter_directory_def say_def select_file_queue
      split: option.split)

lemma cmd_add_queue:
  "queue (cmd_add w es st) =
     (case parse_int w (add_line w) of
        None \<Rightarrow> queue st
      | Some k \<Rightarrow>
          (case item_map es k of
             None \<Rightarrow> queue st
           | Some p \<Rightarrow> if isfile w p then queue st @ [p] else queue st))"
  by (simp add: cmd_add_def say_def split: option.split)

lemma dispatch_queue:
  "queue (final_state (dispatch w af vp es st)) =
     (if choice w = ''add'' then queue (cmd_add w es st)
      else if choice w = ''clear'' then []
      else if choice w = ''>'' then tl (queue st)
      else queue st)"
  by (simp add: dispatch_def Let_def cmd_clear_def say_def cmd_volume_up_def
      cmd_volume_down_def set_volume_def call_mixer_def cmd_pause_def cmd_next_queue
      cmd_previous_queue cmd_shuffle_play_queue cmd_toggle_shuffle_def cmd_quit_def
      cmd_next_page_def cmd_previous_page_def cmd_number_queue split: option.split)

lemma handle_events_queue:
  "handle_events w n st = Continue st' \<Longrightarrow> queue st' = drop n (queue st)"
proof (induction n arbitrary: st)
  case 0
  then show ?case by simp
next
  case (Suc n)
  from Suc.prems obtain s where s: "on_song_end w st = Continue s"
    and rest: "handle_events w n s = Continue st'"
    by (auto split: outcome.splits)
  from on_song_end_queue [of w st] s have "queue s = tl (queue st)"
    by simp
  with Suc.IH [OF rest] show ?case
    by (simp add: drop_Suc tl_drop)
qed

lemma handle_events_queue_suffix:
  "\<exists>k \<le> n. queue (final_state (handle_events w n st)) = drop k (queue st)"
proof (induction n arbitrary: st)
  case 0
  show ?case by simp
next
  case (Suc n)
  have q: "queue (final_state (on_song_end w st)) = drop 1 (queue st)"
    by (simp add: on_song_end_queue drop_Suc)
  show ?case
  proof (cases "on_song_end w st")
    case (Continue s)
    from Suc.IH [of s] obtain k where "k \<le> n"
      "queue (final_state (handle_events w n s)) = drop k (queue s)"
      by blast
    with q Continue have "Suc k \<le> Suc n"
      "queue (final_state (handle_events w (Suc n) st)) = drop (Suc k) (queue st)"
      by (simp_all add: drop_Suc tl_drop)
    then show ?thesis
      by blast
  next
    case (Quit s)
    with q have "(1::nat) \<le> Suc n"
      "queue (final_state (handle_events w (Suc n) st)) = drop 1 (queue st)"
      by simp_all
    then show ?thesis
      by blast
  next
    case (Abort s)
    with q have "(1::nat) \<le> Suc n"
      "queue (final_state (handle_events w (Suc n) st)) = drop 1 (queue st)"
      by simp_all
    then show ?thesis
      by blast
  next
    case (Crash x s)
    with q have "(1::nat) \<le> Suc n"
      "queue (final_state (handle_events w (Suc n) st)) = drop 1 (queue st)"
      by simp_all
    then show ?thesis
      by blast
  qed
qed

lemma cmd_add_mixer: "mixer_log (cmd_add w es st) = mixer_log st"
  by (simp add: cmd_add_def say_def split: option.split)

lemma pop_head:
  assumes "queue st = q # qs" "h = on_song_end w \<or> h = cmd_next w"
  shows "queue (final_state (h st)) = qs"
    "mixer_log (final_state (h st))
       = mixer_log st @ Load q # (if load w q = Loaded then [Play] else [])"
  using assms by (auto simp: on_song_end_def cmd_next_def play_from_queue_mixer)

subsection \<open>Extensions and their spellings\<close>

lemma dotted_iff: "dotted s \<longleftrightarrow> (\<exists>r. s = CHR ''.'' # r \<and> CHR ''.'' \<notin> set r)"
  by (auto simp: dotted_def split: list.splits)

lemma ascii_lower_dot: "ascii_lower c = CHR ''.'' \<longleftrightarrow> c = CHR ''.''"
proof -
  have "char_of (of_char c + (32::nat)) \<noteq> CHR ''.''"
    if "CHR ''A'' \<le> c" "c \<le> CHR ''Z''"
  proof
    assume "char_of (of_char c + (32::nat)) = CHR ''.''"
    then have "(of_char (char_of (of_char c + (32::nat)) :: char) :: nat) = of_char CHR ''.''"
      by simp
    then have "(of_char c + 32) mod 256 = (46::nat)"
      by simp
    moreover have "65 \<le> (of_char c :: nat)" "(of_char c :: nat) \<le> 90"
      using that by (simp_all add: less_eq_char_def)
    ultimately show False by simp
  qed
  moreover have "\<not> (CHR ''A'' \<le> CHR ''.'')"
    by (simp add: less_eq_char_def)
  ultimately show ?thesis
    by (auto simp: ascii_lower_def)
qed

lemma dotted_extension: "e \<in> set audio_extensions \<Longrightarrow> dotted e"
  by (auto simp: audio_extensions_def dotted_iff)

lemma dotted_variant:
  assumes "map ascii_lower v \<in> set audio_extensions"
  shows "dotted v"
proof -
  from dotted_extension [OF assms] obtain r
    where r: "map ascii_lower v = CHR ''.'' # r" "CHR ''.'' \<notin> set r"
    by (auto simp: dotted_iff)
  then obtain c r' where v: "v = c # r'" "ascii_lower c = CHR ''.''" "map ascii_lower r' = r"
    by (cases v) auto
  have "CHR ''.'' \<notin> set r'"
  proof
    assume "CHR ''.'' \<in> set r'"
    then have "ascii_lower CHR ''.'' \<in> set (map ascii_lower r')"
      by (simp only: set_map) (rule imageI)
    then show False
      using r(2) v(3) by (simp add: ascii_lower_dot [THEN iffD2])
  qed
  with v show ?thesis
    by (simp add: dotted_iff ascii_lower_dot)
qed

lemma dotted_suffix_eq:
  assumes "dotted a" "dotted b" "suffix a b"
  shows "a = b"
proof -
  from assms(1,2) obtain ra rb
    where a: "a = CHR ''.'' # ra" and b: "b = CHR ''.'' # rb" "CHR ''.'' \<notin> set rb"
    by (auto simp: dotted_iff)
  from assms(3) obtain zs where zs: "b = zs @ a"
    by (auto simp: suffix_def)
  show ?thesis
  proof (cases zs)
    case Nil
    with zs show ?thesis by simp
  next
    case (Cons z zs')
    with zs a b(1) have "rb = zs' @ CHR ''.'' # ra" by simp
    with b(2) show ?thesis by simp
  qed
qed

lemma variant_not_audio:
  assumes "case_variant v" "suffix v s"
  shows "\<not> endswith s audio_extensions"
proof
  assume "endswith s audio_extensions"
  then obtain e where e: "e \<in> set audio_extensions" "suffix e s"
    by (auto simp: endswith_def list_ex_iff)
  have dv: "dotted v" and de: "dotted e"
    using assms(1) e(1) by (auto simp: case_variant_def dotted_variant dotted_extension)
  from assms(2) e(2) have "suffix v e \<or> suffix e v"
    by (rule suffix_same_cases)
  then have "v = e"
    using dotted_suffix_eq [OF dv de] dotted_suffix_eq [OF de dv] by auto
  with assms(1) e(1) show False
    by (simp add: case_variant_def)
qed

lemma suffix_join: "suffix b (join a b)"
  by (simp add: join_def suffix_def)

lemma endswith_join: "endswith f exts \<Longrightarrow> endswith (join cur f) exts"
  unfolding endswith_def list_ex_iff using suffix_join suffix_order.trans by blast

subsection \<open>Evaluations in the sample folder\<close>

lemma sample_shuffle:
  "shuffle (\<lambda>n. 0) [''/music/a.mp3'', ''/music/b.mp3'', ''/music/live.mp3'']
     = [''/music/b.mp3'', ''/music/live.mp3'', ''/music/a.mp3'']"
  by code_simp

lemma big_names_audio: "length (audio_files_of (sort big_names)) = 25"
  by code_simp

subsection \<open>Paths the player never touches\<close>

lemma untouched_logs [simp]:
  "untouched q (say m st) = untouched q st"
  "untouched q (save_config w st) = untouched q st"
  "untouched q (st\<lparr>config := c\<rparr>) = untouched q st"
  "untouched q (st\<lparr>current_path := p\<rparr>) = untouched q st"
  "untouched q (st\<lparr>is_paused := b\<rparr>) = untouched q st"
  "untouched q (st\<lparr>current_song_index := i\<rparr>) = untouched q st"
  "untouched q (st\<lparr>console := ms\<rparr>) = untouched q st"
  by (simp_all add: untouched_def say_def save_config_def
      split: option.split write_failure.split)

lemma untouched_call_mixer:
  "untouched q (call_mixer c st) = (untouched q st \<and> c \<noteq> Load q)"
  by (auto simp: untouched_def call_mixer_def)

lemma untouched_start_track:
  assumes "untouched q st" "nat (current_song_index st) < length (current_playlist st)"
  shows "untouched q (final_state (start_track w st))"
proof -
  let ?song = "current_playlist st ! nat (current_song_index st)"
  have "?song \<in> set (current_playlist st)"
    using assms(2) by simp
  with assms(1) have "?song \<noteq> q"
    by (auto simp: untouched_def)
  with assms(1) show ?thesis
    by (simp add: start_track_eq Let_def untouched_def split: load_result.split)
qed

lemma untouched_play_from_queue:
  assumes "untouched q st" "queue st = p # ps"
  shows "untouched q (final_state (play_from_queue w p ps st))"
  using assms by (auto simp: play_from_queue_eq untouched_def split: load_result.split)

lemma wrapped_index:
  "xs \<noteq> [] \<Longrightarrow> nat (i mod int (length xs)) < length xs"
  by (simp add: nat_less_iff)

lemma untouched_advance:
  assumes "untouched q st" "current_playlist st \<noteq> []"
  shows "untouched q (final_state
     (start_track w (st\<lparr>current_song_index := i mod int (length (current_playlist st))\<rparr>)))"
  using assms by (intro untouched_start_track) (simp_all add: wrapped_index)

lemma untouched_on_song_end:
  "untouched q st \<Longrightarrow> untouched q (final_state (on_song_end w st))"
  by (auto simp: on_song_end_def untouched_play_from_queue untouched_advance
      split: list.split)

lemma untouched_handle_events:
  "untouched q st \<Longrightarrow> untouched q (final_state (handle_events w n st))"
  by (rule handle_events_preserves) (rule untouched_on_song_end)

lemma untouched_cmd_next: "untouched q st \<Longrightarrow> untouched q (final_state (cmd_next w st))"
  by (auto simp: cmd_next_def untouched_play_from_queue untouched_advance split: list.split)

lemma untouched_cmd_previous:
  "untouched q st \<Longrightarrow> untouched q (final_state (cmd_previous w st))"
  by (auto simp: cmd_previous_def untouched_advance)

lemma build_playlist_set: "set (build_playlist w b vp) = set vp"
  using build_playlist_mset [of w b vp] by (rule mset_eq_setD)

lemma untouched_new_playlist:
  assumes "untouched q st" "q \<notin> set pl" "nat i < length pl"
  shows "untouched q (final_state
     (start_track w (st\<lparr>current_playlist := pl, current_song_index := i\<rparr>)))"
proof (rule untouched_start_track)
  show "untouched q (st\<lparr>current_playlist := pl, current_song_index := i\<rparr>)"
    using assms(1,2) by (simp add: untouched_def)
  show "nat (current_song_index (st\<lparr>current_playlist := pl, current_song_index := i\<rparr>))
      < length (current_playlist (st\<lparr>current_playlist := pl, current_song_index := i\<rparr>))"
    using assms(3) by simp
qed

lemma untouched_cmd_shuffle_play:
  assumes "untouched q st" "q \<notin> set vp"
  shows "untouched q (final_state (cmd_shuffle_play w vp st))"
proof (cases "vp = []")
  case True
  with assms(1) show ?thesis by (simp add: cmd_shuffle_play_def)
next
  case False
  let ?pl = "shuffle (randbelow w) vp"
  have pl: "q \<notin> set ?pl" "nat 0 < length ?pl"
    using assms(2) False mset_eq_setD [OF shuffle_mset [of "randbelow w" vp]]
    by (simp_all add: shuffle_Nil_iff)
  have "untouched q (save_config w (st\<lparr>config := (config st)\<lparr>shuffle_on := True\<rparr>\<rparr>))"
    using assms(1) by simp
  from untouched_new_playlist [OF this pl, of w] False show ?thesis
    by (simp add: cmd_shuffle_play_def)
qed

lemma untouched_cmd_toggle_shuffle:
  assumes "untouched q st" "q \<notin> set vp"
  shows "untouched q (cmd_toggle_shuffle w vp st)"
proof -
  let ?st1 = "save_config w (st\<lparr>config := (config st)\<lparr>shuffle_on := \<not> shuffle_on (config st)\<rparr>\<rparr>)"
  have "untouched q ?st1"
    using assms(1) by simp
  then have "untouched q (?st1\<lparr>current_playlist := build_playlist w b vp\<rparr>)" for b
    using assms(2) by (simp add: untouched_def build_playlist_set)
  then show ?thesis
    by (simp add: cmd_toggle_shuffle_def Let_def split: option.split)
qed

lemma untouched_select_file:
  assumes "untouched q st" "q \<notin> set vp"
  shows "untouched q (final_state (select_file w vp selected st))"
proof -
  let ?pl = "build_playlist w (shuffle_on (config st)) vp"
  let ?i = "case index_of ?pl selected of Some i \<Rightarrow> int i | None \<Rightarrow> 0"
  have q: "q \<notin> set ?pl"
    using assms(2) by (simp add: build_playlist_set)
  show ?thesis
  proof (cases "?pl = []")
    case True
    then show ?thesis
      using assms(1) by (simp add: select_file_eq Let_def untouched_def)
  next
    case False
    have "nat ?i < length ?pl"
      using False by (auto simp: index_of_Some split: option.split)
    then have "?pl ! nat ?i \<in> set ?pl"
      by simp
    with q have "?pl ! nat ?i \<noteq> q"
      by auto
    with assms(1) q False show ?thesis
      by (auto simp: select_file_eq Let_def untouched_def split: load_result.split)
  qed
qed

lemma untouched_cmd_add:
  assumes "untouched q st" "q \<in> set es \<longrightarrow> \<not> isfile w q"
  shows "untouched q (cmd_add w es st)"
  using assms
  by (auto simp: cmd_add_def untouched_def say_def dest: item_map_in_set
      split: option.split)

lemma untouched_cmd_number:
  assumes "untouched q st" "q \<notin> set vp"
  shows "untouched q (final_state (cmd_number w es vp st))"
  using assms
  by (simp add: cmd_number_def enter_directory_def untouched_select_file
      split: option.split)

lemma untouched_cmd_clear: "untouched q st \<Longrightarrow> untouched q (cmd_clear st)"
  by (simp add: cmd_clear_def untouched_def say_def)

lemma untouched_dispatch:
  assumes "untouched q st" "q \<notin> set vp" "q \<in> set es \<longrightarrow> \<not> isfile w q"
  shows "untouched q (final_state (dispatch w af vp es st))"
  using assms
  by (simp add: dispatch_def Let_def untouched_cmd_add untouched_cmd_clear
      cmd_volume_up_def cmd_volume_down_def set_volume_def untouched_call_mixer
      cmd_pause_def untouched_cmd_next untouched_cmd_previous untouched_cmd_shuffle_play
      untouched_cmd_toggle_shuffle cmd_quit_def cmd_next_page_def cmd_previous_page_def
      untouched_cmd_number)

lemma variant_not_parent:
  assumes "case_variant v"
  shows "\<not> suffix v ''..''"
proof
  assume "suffix v ''..''"
  then have "v = [] \<or> v = ''.'' \<or> v = ''..''"
    by (auto simp: suffix_def Cons_eq_append_conv append_eq_Cons_conv)
  moreover have "dotted v"
    using assms by (simp add: case_variant_def dotted_variant)
  ultimately have "v = ''.''"
    by (auto simp: dotted_iff)
  with assms show False
    by (simp add: case_variant_def audio_extensions_def ascii_lower_dot [THEN iffD2])
qed

lemma py_slice_subset: "set (py_slice xs a b) \<subseteq> set xs"
  unfolding py_slice_def Let_def
  by (meson set_take_subset set_drop_subset subset_trans)

lemma view_playlist_audio:
  "q \<in> set (view_playlist_of cur (audio_files_of cs)) \<Longrightarrow> endswith q audio_extensions"
  by (auto simp: view_playlist_of_def audio_files_of_def endswith_join)

lemma paginated_audio:
  assumes "f \<in> set (paginated c (audio_files_of cs))"
  shows "endswith f audio_extensions"
proof -
  have "set (paginated c (audio_files_of cs)) \<subseteq> set (audio_files_of cs)"
    unfolding paginated_def by (rule py_slice_subset)
  with assms have "f \<in> set (audio_files_of cs)"
    by (rule rev_subsetD)
  then show ?thesis
    by (simp add: audio_files_of_def)
qed

lemma menu_entries_kinds:
  assumes "q \<in> set (menu_entries w st (folders_of w (current_path st) cs) (audio_files_of cs))"
  shows "q = ''..'' \<or> isdir w q \<or> endswith q audio_extensions"
  using assms
  by (auto simp: menu_entries_def folders_of_def split: if_splits
      dest!: paginated_audio intro: endswith_join)

lemma isdir_not_isfile: "isdir w q \<Longrightarrow> \<not> isfile w q"
  by (simp add: isdir_def isfile_def)

lemma untouched_iteration:
  assumes "case_variant v" "suffix v q" "untouched q st"
  shows "untouched q (final_state (iteration w st))"
proof -
  have events: "untouched q (final_state (handle_events w (end_events w) st))"
    using assms(3) by (rule untouched_handle_events)
  have audio: "\<not> endswith q audio_extensions"
    using assms(1,2) by (rule variant_not_audio)
  have parent: "q \<noteq> ''..''"
    using variant_not_parent [OF assms(1)] assms(2) by auto
  show ?thesis
  proof (cases "handle_events w (end_events w) st")
    case (Continue st1)
    with events have st1: "untouched q st1"
      by simp
    show ?thesis
    proof (cases "listdir w (current_path st1)")
      case (Entries names)
      let ?cs = "sort names"
      let ?vp = "view_playlist_of (current_path st1) (audio_files_of ?cs)"
      let ?es = "menu_entries w st1 (folders_of w (current_path st1) ?cs) (audio_files_of ?cs)"
      have vp: "q \<notin> set ?vp"
        using audio view_playlist_audio by blast
      have es: "q \<in> set ?es \<longrightarrow> \<not> isfile w q"
        using audio parent menu_entries_kinds [of q w st1 ?cs] isdir_not_isfile by blast
      have "untouched q (final_state (dispatch w (audio_files_of ?cs) ?vp ?es st1))"
        using st1 vp es by (rule untouched_dispatch)
      with Continue Entries show ?thesis
        by (simp add: iteration_def Let_def)
    next
      case FileNotFoundError
      with Continue st1 show ?thesis
        by (simp add: iteration_def)
    next
      case (OSError e)
      with Continue st1 show ?thesis
        by (simp add: iteration_def)
    qed
  qed (use events in \<open>simp_all add: iteration_def\<close>)
qed

lemma untouched_run:
  assumes "case_variant v" "suffix v q"
  shows "untouched q st \<Longrightarrow> untouched q (final_state (run ws st))"
proof (induction ws arbitrary: st)
  case Nil
  then show ?case by simp
next
  case (Cons w ws)
  from untouched_iteration [OF assms Cons.prems, of w] Cons.IH show ?case
    by (cases "iteration w st") simp_all
qed

lemma untouched_initial_state: "untouched q (initial_state w c stored folder)"
  by (simp add: initial_state_def untouched_def save_config_def say_def
      split: option.split write_failure.split)

lemma capitals_variant: "case_variant ''.MP3''"
  by code_simp

subsection \<open>Every handler that starts a track starts at most one\<close>

lemma attempt_refl: "attempt w catching st (Continue st)"
  by (simp add: attempt_def)

lemma attempt_start_track:
  assumes "mixer_log st1 = mixer_log st" "is_paused st1 = is_paused st"
    and "now_playing_song st1 = now_playing_song st"
    and "console st1 = console st @ ms" "\<forall>b e. ErrorLoadingSong b e \<notin> set ms"
  shows "attempt w False st (start_track w st1)"
proof -
  let ?p = "current_playlist st1 ! nat (current_song_index st1)"
  have "started w False ?p st (start_track w st1)"
    using assms(1,3,4,5)
    by (simp add: started_def start_track_eq Let_def printed_def split: load_result.split)
  then show ?thesis
    unfolding attempt_def using assms(2) by auto
qed

lemma attempt_play_from_queue: "attempt w False st (play_from_queue w p ps st)"
proof -
  have "started w False p st (play_from_queue w p ps st)"
    by (simp add: started_def play_from_queue_eq Let_def printed_def split: load_result.split)
  then show ?thesis
    unfolding attempt_def by auto
qed

lemma attempt_on_song_end: "attempt w False st (on_song_end w st)"
  by (simp add: on_song_end_def attempt_refl attempt_play_from_queue
      attempt_start_track [where ms = "[]"] split: list.split)

lemma attempt_cmd_next: "attempt w False st (cmd_next w st)"
  by (simp add: cmd_next_def attempt_refl attempt_play_from_queue
      attempt_start_track [where ms = "[]"] split: list.split)

lemma attempt_cmd_previous: "attempt w False st (cmd_previous w st)"
  by (simp add: cmd_previous_def attempt_refl attempt_start_track [where ms = "[]"])

lemma attempt_cmd_shuffle_play: "attempt w False st (cmd_shuffle_play w vp st)"
proof (cases "vp = []")
  case True
  then show ?thesis
    by (simp add: cmd_shuffle_play_def attempt_refl)
next
  case False
  let ?ms = "case write_error w of
               None \<Rightarrow> []
             | Some (CannotOpen e) \<Rightarrow> [ErrorSavingConfiguration e]
             | Some (CannotWrite e) \<Rightarrow> [ErrorSavingConfiguration e]"
  have "\<forall>b e. ErrorLoadingSong b e \<notin> set ?ms"
    by (simp split: option.split write_failure.split)
  then have "attempt w False st
     (start_track w
        ((save_config w (st\<lparr>config := (config st)\<lparr>shuffle_on := True\<rparr>\<rparr>))
           \<lparr>current_playlist := shuffle (randbelow w) vp, current_song_index := 0\<rparr>))"
    by (intro attempt_start_track [where ms = ?ms]) (simp_all add: save_config_console)
  with False show ?thesis
    by (simp add: cmd_shuffle_play_def)
qed

lemma attempt_select_file: "attempt w True st (select_file w vp selected st)"
proof -
  let ?pl = "build_playlist w (shuffle_on (config st)) vp"
  let ?p = "?pl ! nat (case index_of ?pl selected of Some i \<Rightarrow> int i | None \<Rightarrow> 0)"
  show ?thesis
  proof (cases "?pl = []")
    case True
    then show ?thesis
      by (simp add: select_file_eq Let_def attempt_def)
  next
    case False
    then have "started w True ?p st (select_file w vp selected st)"
      by (simp add: started_def select_file_eq Let_def printed_def split: load_result.split)
    moreover have "is_paused (final_state (select_file w vp selected st)) = is_paused st"
      by (simp add: select_file_eq Let_def split: load_result.split)
    ultimately show ?thesis
      unfolding attempt_def by auto
  qed
qed

lemma attempt_cmd_number: "attempt w True st (cmd_number w es vp st)"
  by (simp add: cmd_number_def attempt_select_file attempt_refl split: option.split)
    (simp add: attempt_def say_def enter_directory_def)

lemma started_single:
  assumes "started w catching p' st out"
    and "mixer_log (final_state out) = mixer_log st @ calls" "Load p \<in> set calls"
  shows "p' = p \<and> calls = Load p # (if load w p = Loaded then [Play] else [])"
  using assms by (auto simp: started_def Let_def split: load_result.splits)

subsection \<open>Volume\<close>

lemma dispatch_volume_up:
  "choice w = ''+'' \<Longrightarrow> dispatch w af vp es st = Continue (cmd_volume_up w st)"
  by (simp add: dispatch_def)

lemma dispatch_volume_down:
  "choice w = ''-'' \<Longrightarrow> dispatch w af vp es st = Continue (cmd_volume_down w st)"
  by (simp add: dispatch_def)

lemma set_volume_effect:
  "volume (config (set_volume w v st)) = v"
  "mixer_log (set_volume w v st) = mixer_log st @ [SetVolume v]"
  "write_error w = None \<Longrightarrow> config_file (set_volume w v st) = Some (config (set_volume w v st))"
  by (simp_all add: set_volume_def call_mixer_def save_config_file)

lemma volume_up_bounds:
  assumes "0 \<le> v" "v \<le> 1"
  shows "0 \<le> min 1 (round64 (v + tenth))" "min 1 (round64 (v + tenth)) \<le> 1"
    "\<bar>min 1 (round64 (v + tenth)) - min 1 (v + 1 / 10)\<bar> \<le> 1 / 2 ^ 52"
proof -
  let ?z = "v + tenth"
  have z: "0 \<le> ?z" "\<bar>?z\<bar> < 2"
    using assms tenth_error(2,3) by simp_all
  show "0 \<le> min 1 (round64 ?z)"
    using round64_nonneg [OF z(1)] by simp
  show "min 1 (round64 ?z) \<le> 1"
    by simp
  have "\<bar>round64 ?z - ?z\<bar> \<le> 1 / 9007199254740992"
    using round64_error [OF z(2)] by simp
  moreover have "?z - (v + 1 / 10) = 1 / 180143985094819840"
    using tenth_error(1) by simp
  ultimately have "\<bar>round64 ?z - (v + 1 / 10)\<bar> \<le> 1 / 4503599627370496"
    by linarith
  then have "\<bar>min 1 (round64 ?z) - min 1 (v + 1 / 10)\<bar> \<le> 1 / 4503599627370496"
    by linarith
  then show "\<bar>min 1 (round64 ?z) - min 1 (v + 1 / 10)\<bar> \<le> 1 / 2 ^ 52"
    by simp
qed

lemma volume_down_bounds:
  assumes "0 \<le> v" "v \<le> 1"
  shows "0 \<le> max 0 (round64 (v - tenth))" "max 0 (round64 (v - tenth)) \<le> 1"
    "\<bar>max 0 (round64 (v - tenth)) - max 0 (v - 1 / 10)\<bar> \<le> 1 / 2 ^ 52"
proof -
  let ?z = "v - tenth"
  have z: "?z \<le> 1" "- 2 < ?z" "\<bar>?z\<bar> < 2"
    using assms tenth_error(2,3) by simp_all
  show "0 \<le> max 0 (round64 ?z)"
    by simp
  show "max 0 (round64 ?z) \<le> 1"
    using round64_le_one [OF z(1,2)] by simp
  have "\<bar>round64 ?z - ?z\<bar> \<le> 1 / 9007199254740992"
    using round64_error [OF z(3)] by simp
  moreover have "(v - 1 / 10) - ?z = 1 / 180143985094819840"
    using tenth_error(1) by simp
  ultimately have "\<bar>round64 ?z - (v - 1 / 10)\<bar> \<le> 1 / 4503599627370496"
    by linarith
  then have "\<bar>max 0 (round64 ?z) - max 0 (v - 1 / 10)\<bar> \<le> 1 / 4503599627370496"
    by linarith
  then show "\<bar>max 0 (round64 ?z) - max 0 (v - 1 / 10)\<bar> \<le> 1 / 2 ^ 52"
    by simp
qed

section \<open>The claims\<close>

subsection \<open>C1: a track that fails to load\<close>

text \<open>
  Claim C1, as amended.  A handler that starts a track (the end-of-track event, \<open>>\<close>,
  \<open><\<close>, \<open>s\<close>, or a file chosen by number) asks the mixer to load \<open>p\<close>, and the load
  fails.  Then the load is the only call the mixer receives (nothing is played) and
  \<open>is_paused\<close> keeps its value; what else happens depends on the exception.

  If it is the mixer's own error, \<open>play_song\<close> catches it: the last line printed is the
  error naming the base name of \<open>p\<close>, and the loop goes on; but every caller drops the
  result of \<open>play_song\<close> and assigns \<open>now_playing_song\<close>, which does not keep its value:
  it becomes \<open>p\<close>, as after a successful load.

  If it is any other exception (\<open>FileNotFoundError\<close> for a file that is gone),
  \<open>play_song\<close> does not catch it: no error about the track is printed and
  \<open>now_playing_song\<close> keeps its value, because the program ends there with the
  exception.  The one case where it does not end is a \<open>ValueError\<close> or \<open>IndexError\<close>
  raised for a file chosen by number, which that handler catches, printing that the input
  is invalid; \<open>now_playing_song\<close> keeps its value then too.
\<close>

theorem load_failure:
  fixes w :: world and h :: "state \<Rightarrow> outcome" and st :: state
  defines "st' \<equiv> final_state (h st)"
  assumes "h \<in> {on_song_end w, cmd_next w, cmd_previous w, cmd_shuffle_play w vp,
                  cmd_number w es vp}"
    and "mixer_log st' = mixer_log st @ calls"
    and "Load p \<in> set calls"
    and "load w p \<noteq> Loaded"
  shows "calls = [Load p]
     \<and> is_paused st' = is_paused st
     \<and> (\<forall>e. load w p = PygameError e \<longrightarrow>
            h st = Continue st'
          \<and> console st' \<noteq> [] \<and> last (console st') = ErrorLoadingSong (basename p) e
          \<and> now_playing_song st' = Some p)
     \<and> (\<forall>x. load w p = LoadRaises x \<longrightarrow>
            now_playing_song st' = now_playing_song st
          \<and> (\<forall>b e. ErrorLoadingSong b e \<notin> set (printed st st'))
          \<and> (h \<in> {on_song_end w, cmd_next w, cmd_previous w, cmd_shuffle_play w vp}
               \<or> \<not> caught x \<longrightarrow> h st = Crash x st')
          \<and> (h = cmd_number w es vp \<and> caught x \<longrightarrow>
                h st = Continue st' \<and> console st' \<noteq> [] \<and> last (console st') = InvalidInput))"
proof -
  have plain: "attempt w False st (h st)"
    if "h \<in> {on_song_end w, cmd_next w, cmd_previous w, cmd_shuffle_play w vp}"
    using that
    by (auto simp: attempt_on_song_end attempt_cmd_next attempt_cmd_previous
        attempt_cmd_shuffle_play)
  have number: "attempt w True st (h st)" if "h = cmd_number w es vp"
    using that by (simp add: attempt_cmd_number)
  from assms(3,4) have moved: "mixer_log (final_state (h st)) \<noteq> mixer_log st"
    by (auto simp: st'_def)
  have single: "p' = p \<and> calls = Load p # (if load w p = Loaded then [Play] else [])"
    if "started w c p' st (h st)" for c p'
    using that assms(3,4) unfolding st'_def by (rule started_single)
  have start: "started w c p st (h st) \<and> is_paused st' = is_paused st"
    if "attempt w c st (h st)" for c
    using that moved single by (auto simp: attempt_def st'_def)
  from assms(2) plain number obtain c where c: "attempt w c st (h st)"
    by blast
  note s = start [OF c]
  have calls: "calls = [Load p]"
    using single s assms(5) by auto
  have refused: "h st = Continue st'
          \<and> console st' \<noteq> [] \<and> last (console st') = ErrorLoadingSong (basename p) e
          \<and> now_playing_song st' = Some p" if "load w p = PygameError e" for e
    using s that by (simp add: started_def Let_def st'_def)
  have raised: "now_playing_song st' = now_playing_song st
          \<and> (\<forall>b e. ErrorLoadingSong b e \<notin> set (printed st st'))"
    if "load w p = LoadRaises x" for x
    using s that by (simp add: started_def Let_def st'_def)
  have crash: "h st = Crash x st'"
    if "load w p = LoadRaises x"
      "h \<in> {on_song_end w, cmd_next w, cmd_previous w, cmd_shuffle_play w vp} \<or> \<not> caught x"
    for x
  proof (cases "h \<in> {on_song_end w, cmd_next w, cmd_previous w, cmd_shuffle_play w vp}")
    case True
    from start [OF plain [OF True]] that(1) show ?thesis
      by (simp add: started_def Let_def st'_def)
  next
    case False
    with that(2) have "\<not> caught x"
      by blast
    with s that(1) show ?thesis
      by (simp add: started_def Let_def st'_def)
  qed
  have handled: "h st = Continue st' \<and> console st' \<noteq> [] \<and> last (console st') = InvalidInput"
    if "load w p = LoadRaises x" "h = cmd_number w es vp" "caught x" for x
    using start [OF number [OF that(2)]] that(1,3)
    by (simp add: started_def Let_def st'_def)
  from calls s refused raised crash handled show ?thesis
    by blast
qed

theorem load_failure_witness:
  "mixer_log (final_state (cmd_next (sample_world ''>'' [])
        (sample_state ''/music'' (Some ''/music/a.mp3'') [''/music/b.mp3'']
           [''/music/a.mp3'', ''/music/b.mp3''] 0)))
      = mixer_log (sample_state ''/music'' (Some ''/music/a.mp3'') [''/music/b.mp3'']
           [''/music/a.mp3'', ''/music/b.mp3''] 0) @ [Load ''/music/b.mp3'']
   \<and> load (sample_world ''>'' []) ''/music/b.mp3'' = PygameError ''Unrecognized audio format''
   \<and> cmd_next (sample_world ''>'' [])
        (sample_state ''/music'' (Some ''/music/a.mp3'') [''/music/b.mp3'']
           [''/music/a.mp3'', ''/music/b.mp3''] 0)
      = Continue (final_state (cmd_next (sample_world ''>'' [])
        (sample_state ''/music'' (Some ''/music/a.mp3'') [''/music/b.mp3'']
           [''/music/a.mp3'', ''/music/b.mp3''] 0)))
   \<and> last (console (final_state (cmd_next (sample_world ''>'' [])
        (sample_state ''/music'' (Some ''/music/a.mp3'') [''/music/b.mp3'']
           [''/music/a.mp3'', ''/music/b.mp3''] 0))))
      = ErrorLoadingSong (basename ''/music/b.mp3'') ''Unrecognized audio format''
   \<and> basename ''/music/b.mp3'' = ''b.mp3''
   \<and> now_playing_song (final_state (cmd_next (sample_world ''>'' [])
        (sample_state ''/music'' (Some ''/music/a.mp3'') [''/music/b.mp3'']
           [''/music/a.mp3'', ''/music/b.mp3''] 0))) = Some ''/music/b.mp3''
   \<and> mixer_log (final_state (cmd_next (sample_world ''>'' [])
        (sample_state ''/music'' (Some ''/music/a.mp3'') [''/music/gone.mp3'']
           [''/music/a.mp3'', ''/music/b.mp3''] 0)))
      = mixer_log (sample_state ''/music'' (Some ''/music/a.mp3'') [''/music/gone.mp3'']
           [''/music/a.mp3'', ''/music/b.mp3''] 0) @ [Load ''/music/gone.mp3'']
   \<and> load (sample_world ''>'' []) ''/music/gone.mp3''
      = LoadRaises (OtherException ''FileNotFoundError'')
   \<and> cmd_next (sample_world ''>'' [])
        (sample_state ''/music'' (Some ''/music/a.mp3'') [''/music/gone.mp3'']
           [''/music/a.mp3'', ''/music/b.mp3''] 0)
      = Crash (OtherException ''FileNotFoundError'')
          (final_state (cmd_next (sample_world ''>'' [])
             (sample_state ''/music'' (Some ''/music/a.mp3'') [''/music/gone.mp3'']
                [''/music/a.mp3'', ''/music/b.mp3''] 0)))
   \<and> now_playing_song (final_state (cmd_next (sample_world ''>'' [])
        (sample_state ''/music'' (Some ''/music/a.mp3'') [''/music/gone.mp3'']
           [''/music/a.mp3'', ''/music/b.mp3''] 0))) = Some ''/music/a.mp3''
   \<and> load ((sample_world ''1'' [])\<lparr>load := \<lambda>p. LoadRaises (ValueError ''embedded null byte'')\<rparr>)
        ''/music/a.mp3'' = LoadRaises (ValueError ''embedded null byte'')
   \<and> caught (ValueError ''embedded null byte'')
   \<and> cmd_number
        ((sample_world ''1'' [])\<lparr>load := \<lambda>p. LoadRaises (ValueError ''embedded null byte'')\<rparr>)
        [''/music/a.mp3''] [''/music/a.mp3''] (sample_state ''/music'' None [] [] (- 1))
      = Continue (final_state (cmd_number
        ((sample_world ''1'' [])\<lparr>load := \<lambda>p. LoadRaises (ValueError ''embedded null byte'')\<rparr>)
        [''/music/a.mp3''] [''/music/a.mp3''] (sample_state ''/music'' None [] [] (- 1))))
   \<and> last (console (final_state (cmd_number
        ((sample_world ''1'' [])\<lparr>load := \<lambda>p. LoadRaises (ValueError ''embedded null byte'')\<rparr>)
        [''/music/a.mp3''] [''/music/a.mp3''] (sample_state ''/music'' None [] [] (- 1)))))
      = InvalidInput"
proof -
  let ?v = "(sample_world ''1'' [])\<lparr>load := \<lambda>p. LoadRaises (ValueError ''embedded null byte'')\<rparr>"
  let ?s3 = "sample_state ''/music'' None [] [] (- 1)"
  let ?one = "[''/music/a.mp3'']"
  have h3: "cmd_number ?v ?one ?one \<in> {on_song_end ?v, cmd_next ?v, cmd_previous ?v,
      cmd_shuffle_play ?v ?one, cmd_number ?v ?one ?one}"
    by simp
  have m3: "mixer_log (final_state (cmd_number ?v ?one ?one ?s3))
      = mixer_log ?s3 @ [Load ''/music/a.mp3'']"
    by code_simp
  have l3: "Load ''/music/a.mp3'' \<in> set [Load ''/music/a.mp3'']"
    by simp
  have e3: "load ?v ''/music/a.mp3'' = LoadRaises (ValueError ''embedded null byte'')"
    by simp
  have n3: "load ?v ''/music/a.mp3'' \<noteq> Loaded"
    by simp
  have c3: "caught (ValueError ''embedded null byte'')"
    by (simp add: caught_def)
  have same: "cmd_number ?v ?one ?one = cmd_number ?v ?one ?one"
    by (rule refl)
  note t3 = load_failure [OF h3 m3 l3 n3]
  from t3 e3 c3 same have r3: "cmd_number ?v ?one ?one ?s3
       = Continue (final_state (cmd_number ?v ?one ?one ?s3))"
    "last (console (final_state (cmd_number ?v ?one ?one ?s3))) = InvalidInput"
    by blast+
  let ?w = "sample_world ''>'' []"
  let ?s1 = "sample_state ''/music'' (Some ''/music/a.mp3'') [''/music/b.mp3'']
               [''/music/a.mp3'', ''/music/b.mp3''] 0"
  let ?s2 = "sample_state ''/music'' (Some ''/music/a.mp3'') [''/music/gone.mp3'']
               [''/music/a.mp3'', ''/music/b.mp3''] 0"
  have h: "cmd_next ?w \<in> {on_song_end ?w, cmd_next ?w, cmd_previous ?w,
      cmd_shuffle_play ?w [], cmd_number ?w [] []}"
    by simp
  have m1: "mixer_log (final_state (cmd_next ?w ?s1)) = mixer_log ?s1 @ [Load ''/music/b.mp3'']"
    by code_simp
  have m2: "mixer_log (final_state (cmd_next ?w ?s2)) = mixer_log ?s2 @ [Load ''/music/gone.mp3'']"
    by code_simp
  have l1: "Load ''/music/b.mp3'' \<in> set [Load ''/music/b.mp3'']"
    and l2: "Load ''/music/gone.mp3'' \<in> set [Load ''/music/gone.mp3'']"
    by simp_all
  have e1: "load ?w ''/music/b.mp3'' = PygameError ''Unrecognized audio format''"
    by code_simp
  have e2: "load ?w ''/music/gone.mp3'' = LoadRaises (OtherException ''FileNotFoundError'')"
    by code_simp
  have n1: "load ?w ''/music/b.mp3'' \<noteq> Loaded" and n2: "load ?w ''/music/gone.mp3'' \<noteq> Loaded"
    by (simp_all add: e1 e2)
  have b: "basename ''/music/b.mp3'' = ''b.mp3''"
    by code_simp
  have a: "now_playing_song ?s2 = Some ''/music/a.mp3''"
    by (simp add: sample_state_def)
  note t1 = load_failure [OF h m1 l1 n1] and t2 = load_failure [OF h m2 l2 n2]
  from t1 e1 have r1: "cmd_next ?w ?s1 = Continue (final_state (cmd_next ?w ?s1))"
    "last (console (final_state (cmd_next ?w ?s1)))
       = ErrorLoadingSong (basename ''/music/b.mp3'') ''Unrecognized audio format''"
    "now_playing_song (final_state (cmd_next ?w ?s1)) = Some ''/music/b.mp3''"
    by blast+
  from t2 e2 have r2: "cmd_next ?w ?s2
       = Crash (OtherException ''FileNotFoundError'') (final_state (cmd_next ?w ?s2))"
    "now_playing_song (final_state (cmd_next ?w ?s2)) = now_playing_song ?s2"
    by blast+
  from m1 e1 r1 b m2 e2 r2 a have first: "mixer_log (final_state (cmd_next ?w ?s1))
        = mixer_log ?s1 @ [Load ''/music/b.mp3'']
      \<and> load ?w ''/music/b.mp3'' = PygameError ''Unrecognized audio format''
      \<and> cmd_next ?w ?s1 = Continue (final_state (cmd_next ?w ?s1))
      \<and> last (console (final_state (cmd_next ?w ?s1)))
          = ErrorLoadingSong (basename ''/music/b.mp3'') ''Unrecognized audio format''
      \<and> basename ''/music/b.mp3'' = ''b.mp3''
      \<and> now_playing_song (final_state (cmd_next ?w ?s1)) = Some ''/music/b.mp3''
      \<and> mixer_log (final_state (cmd_next ?w ?s2)) = mixer_log ?s2 @ [Load ''/music/gone.mp3'']
      \<and> load ?w ''/music/gone.mp3'' = LoadRaises (OtherException ''FileNotFoundError'')
      \<and> cmd_next ?w ?s2
          = Crash (OtherException ''FileNotFoundError'') (final_state (cmd_next ?w ?s2))
      \<and> now_playing_song (final_state (cmd_next ?w ?s2)) = Some ''/music/a.mp3''"
    by simp
  from first e3 c3 r3 show ?thesis
    by blast
qed

text \<open>
  The claim as stated fails twice over.  With \<open>a.mp3\<close> the current track, the damaged
  \<open>b.mp3\<close> queued and \<open>>\<close> typed, the error is reported and \<open>b.mp3\<close> is the current
  track afterwards.  With \<open>gone.mp3\<close> queued instead, a file deleted since, nothing is
  reported: the program ends with the exception of the load.
\<close>

theorem load_failure_counterexample:
  "choice (sample_world ''>'' []) = ''>''
   \<and> load (sample_world ''>'' []) ''/music/b.mp3'' = PygameError ''Unrecognized audio format''
   \<and> iteration (sample_world ''>'' [])
        (sample_state ''/music'' (Some ''/music/a.mp3'') [''/music/b.mp3'']
           [''/music/a.mp3'', ''/music/b.mp3''] 0)
      = Continue
          ((sample_state ''/music'' (Some ''/music/b.mp3'') []
              [''/music/a.mp3'', ''/music/b.mp3''] (- 1))
             \<lparr>mixer_log := [Load ''/music/b.mp3''],
              console := [ErrorLoadingSong ''b.mp3'' ''Unrecognized audio format'']\<rparr>)
   \<and> load (sample_world ''>'' []) ''/music/gone.mp3''
      = LoadRaises (OtherException ''FileNotFoundError'')
   \<and> iteration (sample_world ''>'' [])
        (sample_state ''/music'' (Some ''/music/a.mp3'') [''/music/gone.mp3'']
           [''/music/a.mp3'', ''/music/b.mp3''] 0)
      = Crash (OtherException ''FileNotFoundError'')
          ((sample_state ''/music'' (Some ''/music/a.mp3'') []
              [''/music/a.mp3'', ''/music/b.mp3''] 0)
             \<lparr>mixer_log := [Load ''/music/gone.mp3''], console := []\<rparr>)"
  by code_simp

subsection \<open>C2: the queue goes first\<close>

text \<open>
  Claim C2, as amended.  Whenever the queue is not empty, the end-of-track handler and
  the \<open>>\<close> command do the same thing: they pop the head of the queue and ask the mixer
  to load it, whatever the active playlist and the index are; the playlist is left as it
  is.  What follows depends on the load.  If it succeeds, the track is played, it becomes
  \<open>now_playing_song\<close>, and \<open>current_song_index\<close> becomes \<open>-1\<close>.  If the mixer refuses
  the file, nothing is played and the error is printed, but \<open>now_playing_song\<close> and the
  index are set all the same.  If the load raises any other exception, the program ends
  with it: the head has left the queue, and neither \<open>now_playing_song\<close> nor the index has
  been assigned.  Whenever the loop goes on, the index is \<open>-1\<close> and not the next position
  of the playlist: the playlist advances only when the queue is empty.
\<close>

theorem queue_takes_priority:
  assumes "queue st = q # qs"
  shows "on_song_end w st = cmd_next w st
     \<and> (choice w = ''>'' \<longrightarrow> dispatch w af vp es st = cmd_next w st)
     \<and> cmd_next w st =
         (case load w q of
            Loaded \<Rightarrow>
              Continue (st\<lparr>queue := qs, now_playing_song := Some q,
                           current_song_index := - 1,
                           mixer_log := mixer_log st @ [Load q, Play]\<rparr>)
          | PygameError e \<Rightarrow>
              Continue (st\<lparr>queue := qs, now_playing_song := Some q,
                           current_song_index := - 1,
                           mixer_log := mixer_log st @ [Load q],
                           console := console st @ [ErrorLoadingSong (basename q) e]\<rparr>)
          | LoadRaises x \<Rightarrow>
              Crash x (st\<lparr>queue := qs, mixer_log := mixer_log st @ [Load q]\<rparr>))
     \<and> current_playlist (final_state (cmd_next w st)) = current_playlist st
     \<and> (\<forall>s. cmd_next w st = Continue s \<and> current_playlist st \<noteq> [] \<longrightarrow>
            current_song_index s = - 1
          \<and> current_song_index s \<noteq>
              (current_song_index st + 1) mod int (length (current_playlist st)))"
proof -
  have same: "on_song_end w st = cmd_next w st"
    using assms by (simp add: on_song_end_def cmd_next_def)
  have d: "choice w = ''>'' \<longrightarrow> dispatch w af vp es st = cmd_next w st"
    by (simp add: dispatch_next)
  have h: "cmd_next w st = play_from_queue w q qs st"
    using assms by (simp add: cmd_next_def)
  have eq: "cmd_next w st =
         (case load w q of
            Loaded \<Rightarrow>
              Continue (st\<lparr>queue := qs, now_playing_song := Some q,
                           current_song_index := - 1,
                           mixer_log := mixer_log st @ [Load q, Play]\<rparr>)
          | PygameError e \<Rightarrow>
              Continue (st\<lparr>queue := qs, now_playing_song := Some q,
                           current_song_index := - 1,
                           mixer_log := mixer_log st @ [Load q],
                           console := console st @ [ErrorLoadingSong (basename q) e]\<rparr>)
          | LoadRaises x \<Rightarrow>
              Crash x (st\<lparr>queue := qs, mixer_log := mixer_log st @ [Load q]\<rparr>))"
    unfolding h by (simp add: play_from_queue_eq split: load_result.split)
  have pl: "current_playlist (final_state (cmd_next w st)) = current_playlist st"
    unfolding h by simp
  have "(0::int) \<le> (current_song_index st + 1) mod int (length (current_playlist st))"
    if "current_playlist st \<noteq> []"
    using that by simp
  then have adv: "(current_song_index st + 1) mod int (length (current_playlist st)) \<noteq> - 1"
    if "current_playlist st \<noteq> []"
    using that by fastforce
  have idx: "current_song_index s = - 1" if "cmd_next w st = Continue s" for s
    using that unfolding h by (auto simp: play_from_queue_eq split: load_result.splits)
  have only: "\<forall>s. cmd_next w st = Continue s \<and> current_playlist st \<noteq> [] \<longrightarrow>
            current_song_index s = - 1
          \<and> current_song_index s \<noteq>
              (current_song_index st + 1) mod int (length (current_playlist st))"
    using idx adv by metis
  from same d eq pl only show ?thesis
    by blast
qed

theorem queue_takes_priority_witness:
  "queue (sample_state ''/music'' (Some ''/music/big/a.mp3'') [''/music/a.mp3'']
            [''/music/big/a.mp3'', ''/music/big/b.mp3''] 0) = [''/music/a.mp3'']
   \<and> load (sample_world ''>'' []) ''/music/a.mp3'' = Loaded
   \<and> on_song_end (sample_world ''>'' [])
        (sample_state ''/music'' (Some ''/music/big/a.mp3'') [''/music/a.mp3'']
           [''/music/big/a.mp3'', ''/music/big/b.mp3''] 0)
      = Continue
          ((sample_state ''/music'' (Some ''/music/a.mp3'') []
              [''/music/big/a.mp3'', ''/music/big/b.mp3''] (- 1))
             \<lparr>mixer_log := [Load ''/music/a.mp3'', Play]\<rparr>)
   \<and> choice (sample_world ''>'' []) = ''>''
   \<and> dispatch (sample_world ''>'' []) [] [] []
        (sample_state ''/music'' (Some ''/music/big/a.mp3'') [''/music/a.mp3'']
           [''/music/big/a.mp3'', ''/music/big/b.mp3''] 0)
      = Continue
          ((sample_state ''/music'' (Some ''/music/a.mp3'') []
              [''/music/big/a.mp3'', ''/music/big/b.mp3''] (- 1))
             \<lparr>mixer_log := [Load ''/music/a.mp3'', Play]\<rparr>)"
proof -
  let ?w = "sample_world ''>'' []"
  let ?st = "sample_state ''/music'' (Some ''/music/big/a.mp3'') [''/music/a.mp3'']
               [''/music/big/a.mp3'', ''/music/big/b.mp3''] 0"
  let ?st' = "(sample_state ''/music'' (Some ''/music/a.mp3'') []
              [''/music/big/a.mp3'', ''/music/big/b.mp3''] (- 1))
             \<lparr>mixer_log := [Load ''/music/a.mp3'', Play]\<rparr>"
  have q: "queue ?st = [''/music/a.mp3'']"
    by (simp add: sample_state_def)
  have c: "choice ?w = ''>''"
    by (simp add: sample_world_def)
  have l: "load ?w ''/music/a.mp3'' = Loaded"
    by code_simp
  note t = queue_takes_priority [OF q, of ?w "[]" "[]" "[]"]
  from t have "cmd_next ?w ?st =
      (case load ?w ''/music/a.mp3'' of
         Loaded \<Rightarrow>
           Continue (?st\<lparr>queue := [], now_playing_song := Some ''/music/a.mp3'',
                        current_song_index := - 1,
                        mixer_log := mixer_log ?st @ [Load ''/music/a.mp3'', Play]\<rparr>)
       | PygameError e \<Rightarrow>
           Continue (?st\<lparr>queue := [], now_playing_song := Some ''/music/a.mp3'',
                        current_song_index := - 1,
                        mixer_log := mixer_log ?st @ [Load ''/music/a.mp3''],
                        console := console ?st
                          @ [ErrorLoadingSong (basename ''/music/a.mp3'') e]\<rparr>)
       | LoadRaises x \<Rightarrow>
           Crash x (?st\<lparr>queue := [],
                       mixer_log := mixer_log ?st @ [Load ''/music/a.mp3'']\<rparr>))"
    by blast
  then have n: "cmd_next ?w ?st = Continue ?st'"
    by (simp add: l sample_state_def)
  from t have "on_song_end ?w ?st = cmd_next ?w ?st"
    by blast
  with n have e: "on_song_end ?w ?st = Continue ?st'"
    by simp
  from t c have "dispatch ?w [] [] [] ?st = cmd_next ?w ?st"
    by blast
  with n have d: "dispatch ?w [] [] [] ?st = Continue ?st'"
    by simp
  from q l e c d show ?thesis
    by blast
qed

text \<open>
  The claim as stated fails when the head of the queue is \<open>gone.mp3\<close>, a file deleted
  since it was queued, and \<open>>\<close> is typed: the head is popped and the program ends with
  the exception of the load; nothing is played, the current track is still the one of
  the playlist and the index is still 0.
\<close>

theorem queue_takes_priority_counterexample:
  "choice (sample_world ''>'' []) = ''>''
   \<and> queue (sample_state ''/music'' (Some ''/music/big/a.mp3'') [''/music/gone.mp3'']
            [''/music/big/a.mp3'', ''/music/big/b.mp3''] 0) = [''/music/gone.mp3'']
   \<and> iteration (sample_world ''>'' [])
        (sample_state ''/music'' (Some ''/music/big/a.mp3'') [''/music/gone.mp3'']
           [''/music/big/a.mp3'', ''/music/big/b.mp3''] 0)
      = Crash (OtherException ''FileNotFoundError'')
          ((sample_state ''/music'' (Some ''/music/big/a.mp3'') []
              [''/music/big/a.mp3'', ''/music/big/b.mp3''] 0)
             \<lparr>mixer_log := [Load ''/music/gone.mp3'']\<rparr>)"
  by code_simp

subsection \<open>C3: toggling shuffle\<close>

text \<open>
  Claim C3.  The command \<open>t\<close> flips \<open>shuffle_on\<close> and saves the configuration,
  replaces the active playlist by a copy of the view playlist (shuffled when the new flag
  is on, sorted when it is off), and, exactly when a track is playing (\<open>now_playing_song\<close>
  is set and the mixer is busy) and the index was not \<open>-1\<close>, sets the index to the first
  position of the current track in the new playlist, or to \<open>-1\<close> when the track is not in
  it; otherwise the index is kept.  The mixer receives no call: the loaded track is neither
  loaded again nor restarted.
\<close>

theorem toggle_shuffle:
  fixes w :: world and vp :: "path list" and st :: state
  defines "st' \<equiv> cmd_toggle_shuffle w vp st"
  shows "(choice w = ''t'' \<longrightarrow> dispatch w af vp es st = Continue st')
     \<and> shuffle_on (config st') = (\<not> shuffle_on (config st))
     \<and> (write_error w = None \<longrightarrow> config_file st' = Some (config st'))
     \<and> current_playlist st' =
          (if shuffle_on (config st') then shuffle (randbelow w) vp else sort vp)
     \<and> mset (current_playlist st') = mset vp
     \<and> (\<not> shuffle_on (config st') \<longrightarrow> sorted (current_playlist st'))
     \<and> (if truthy (now_playing_song st) \<and> get_busy w \<and> current_song_index st \<noteq> - 1
         then (the (now_playing_song st) \<in> set (current_playlist st') \<longrightarrow>
                 0 \<le> current_song_index st'
               \<and> nat (current_song_index st') < length (current_playlist st')
               \<and> current_playlist st' ! nat (current_song_index st') = the (now_playing_song st)
               \<and> (\<forall>j < nat (current_song_index st').
                     current_playlist st' ! j \<noteq> the (now_playing_song st)))
            \<and> (the (now_playing_song st) \<notin> set (current_playlist st') \<longrightarrow>
                 current_song_index st' = - 1)
         else current_song_index st' = current_song_index st)
     \<and> mixer_log st' = mixer_log st
     \<and> now_playing_song st' = now_playing_song st
     \<and> is_paused st' = is_paused st
     \<and> queue st' = queue st"
proof -
  let ?c = "(config st)\<lparr>shuffle_on := \<not> shuffle_on (config st)\<rparr>"
  let ?pl = "build_playlist w (\<not> shuffle_on (config st)) vp"
  have common: "config st' = ?c" "current_playlist st' = ?pl"
    "mixer_log st' = mixer_log st" "now_playing_song st' = now_playing_song st"
    "is_paused st' = is_paused st" "queue st' = queue st"
    "config_file st' = config_file (save_config w (st\<lparr>config := ?c\<rparr>))"
    by (simp_all add: st'_def cmd_toggle_shuffle_def Let_def split: option.split)
  have idx: "current_song_index st' =
      (if truthy (now_playing_song st) \<and> get_busy w \<and> current_song_index st \<noteq> - 1
       then (case index_of ?pl (the (now_playing_song st)) of
               Some i \<Rightarrow> int i | None \<Rightarrow> - 1)
       else current_song_index st)"
    by (simp add: st'_def cmd_toggle_shuffle_def Let_def split: option.split)
  have found: "x \<in> set ?pl \<Longrightarrow>
      (case index_of ?pl x of Some i \<Rightarrow> int i | None \<Rightarrow> - 1) = k \<Longrightarrow>
      0 \<le> k \<and> nat k < length ?pl \<and> ?pl ! nat k = x \<and> (\<forall>j < nat k. ?pl ! j \<noteq> x)" for x k
    by (auto simp: index_of_None index_of_Some split: option.splits)
  have absent: "x \<notin> set ?pl \<Longrightarrow>
      (case index_of ?pl x of Some i \<Rightarrow> int i | None \<Rightarrow> - 1) = - 1" for x
    by (simp add: index_of_None [symmetric])
  have saved: "write_error w = None \<longrightarrow> config_file st' = Some ?c"
    by (simp add: common save_config_file)
  have pl: "?pl = (if \<not> shuffle_on (config st) then shuffle (randbelow w) vp else sort vp)"
    by (simp add: build_playlist_def)
  have srt: "shuffle_on (config st) \<longrightarrow> sorted ?pl"
    by (simp add: build_playlist_def)
  have 1: "choice w = ''t'' \<longrightarrow> dispatch w af vp es st = Continue st'"
    by (simp add: st'_def dispatch_toggle)
  have 2: "shuffle_on (config st') = (\<not> shuffle_on (config st))"
    by (simp add: common)
  have 3: "write_error w = None \<longrightarrow> config_file st' = Some (config st')"
    using saved by (simp add: common)
  have 4: "current_playlist st' =
          (if shuffle_on (config st') then shuffle (randbelow w) vp else sort vp)"
    using pl by (simp add: common)
  have 5: "mset (current_playlist st') = mset vp"
    by (simp add: common build_playlist_mset)
  have 6: "\<not> shuffle_on (config st') \<longrightarrow> sorted (current_playlist st')"
    using srt by (simp add: common)
  have 7: "(if truthy (now_playing_song st) \<and> get_busy w \<and> current_song_index st \<noteq> - 1
         then (the (now_playing_song st) \<in> set (current_playlist st') \<longrightarrow>
                 0 \<le> current_song_index st'
               \<and> nat (current_song_index st') < length (current_playlist st')
               \<and> current_playlist st' ! nat (current_song_index st') = the (now_playing_song st)
               \<and> (\<forall>j < nat (current_song_index st').
                     current_playlist st' ! j \<noteq> the (now_playing_song st)))
            \<and> (the (now_playing_song st) \<notin> set (current_playlist st') \<longrightarrow>
                 current_song_index st' = - 1)
         else current_song_index st' = current_song_index st)"
    unfolding common(2) idx using found absent by simp
  from 1 2 3 4 5 6 7 common(3-6) show ?thesis
    by blast
qed

theorem toggle_shuffle_witness:
  "choice (sample_world ''t'' []) = ''t''
   \<and> truthy (now_playing_song
        (sample_state ''/music'' (Some ''/music/a.mp3'') [] [''/music/a.mp3''] 0))
   \<and> get_busy (sample_world ''t'' [])
   \<and> write_error (sample_world ''t'' []) = None
   \<and> dispatch (sample_world ''t'' []) []
        [''/music/a.mp3'', ''/music/b.mp3'', ''/music/live.mp3''] []
        (sample_state ''/music'' (Some ''/music/a.mp3'') [] [''/music/a.mp3''] 0)
      = Continue (cmd_toggle_shuffle (sample_world ''t'' [])
          [''/music/a.mp3'', ''/music/b.mp3'', ''/music/live.mp3'']
          (sample_state ''/music'' (Some ''/music/a.mp3'') [] [''/music/a.mp3''] 0))
   \<and> shuffle_on (config (cmd_toggle_shuffle (sample_world ''t'' [])
          [''/music/a.mp3'', ''/music/b.mp3'', ''/music/live.mp3'']
          (sample_state ''/music'' (Some ''/music/a.mp3'') [] [''/music/a.mp3''] 0)))
   \<and> current_playlist (cmd_toggle_shuffle (sample_world ''t'' [])
          [''/music/a.mp3'', ''/music/b.mp3'', ''/music/live.mp3'']
          (sample_state ''/music'' (Some ''/music/a.mp3'') [] [''/music/a.mp3''] 0))
      = [''/music/b.mp3'', ''/music/live.mp3'', ''/music/a.mp3'']
   \<and> current_playlist (cmd_toggle_shuffle (sample_world ''t'' [])
          [''/music/a.mp3'', ''/music/b.mp3'', ''/music/live.mp3'']
          (sample_state ''/music'' (Some ''/music/a.mp3'') [] [''/music/a.mp3''] 0))
        ! nat (current_song_index (cmd_toggle_shuffle (sample_world ''t'' [])
          [''/music/a.mp3'', ''/music/b.mp3'', ''/music/live.mp3'']
          (sample_state ''/music'' (Some ''/music/a.mp3'') [] [''/music/a.mp3''] 0)))
      = ''/music/a.mp3''
   \<and> mixer_log (cmd_toggle_shuffle (sample_world ''t'' [])
          [''/music/a.mp3'', ''/music/b.mp3'', ''/music/live.mp3'']
          (sample_state ''/music'' (Some ''/music/a.mp3'') [] [''/music/a.mp3''] 0)) = []"
proof -
  let ?w = "sample_world ''t'' []"
  let ?vp = "[''/music/a.mp3'', ''/music/b.mp3'', ''/music/live.mp3'']"
  let ?st = "sample_state ''/music'' (Some ''/music/a.mp3'') [] [''/music/a.mp3''] 0"
  let ?st' = "cmd_toggle_shuffle ?w ?vp ?st"
  have w: "choice ?w = ''t''" "get_busy ?w" "write_error ?w = None"
    "randbelow ?w = (\<lambda>n. 0)"
    by (simp_all add: sample_world_def)
  have s: "now_playing_song ?st = Some ''/music/a.mp3''" "current_song_index ?st = 0"
    "\<not> shuffle_on (config ?st)" "mixer_log ?st = []"
    by (simp_all add: sample_state_def sample_config_def)
  note t = toggle_shuffle [of ?w "[]" ?vp "[]" ?st]
  note t1 = t [THEN conjunct1]
    and t2 = t [THEN conjunct2, THEN conjunct1]
    and t4 = t [THEN conjunct2, THEN conjunct2, THEN conjunct2, THEN conjunct1]
    and t7 = t [THEN conjunct2, THEN conjunct2, THEN conjunct2, THEN conjunct2,
                THEN conjunct2, THEN conjunct2, THEN conjunct1]
    and t8 = t [THEN conjunct2, THEN conjunct2, THEN conjunct2, THEN conjunct2,
                THEN conjunct2, THEN conjunct2, THEN conjunct2, THEN conjunct1]
  from t1 w(1) have d: "dispatch ?w [] ?vp [] ?st = Continue ?st'"
    by (rule mp)
  from t2 s(3) have on: "shuffle_on (config ?st')"
    by simp
  from t4 have "current_playlist ?st' = shuffle (randbelow ?w) ?vp"
    by (simp only: on if_True)
  then have pl: "current_playlist ?st' = [''/music/b.mp3'', ''/music/live.mp3'', ''/music/a.mp3'']"
    by (simp only: w(4) sample_shuffle)
  have playing: "truthy (now_playing_song ?st) \<and> get_busy ?w \<and> current_song_index ?st \<noteq> - 1"
    by (simp add: s w truthy_def)
  have present: "the (now_playing_song ?st) \<in> set (current_playlist ?st')"
    by (simp add: pl s)
  note located = t7 [unfolded if_P [OF playing], THEN conjunct1, THEN mp, OF present]
  have at: "current_playlist ?st' ! nat (current_song_index ?st') = the (now_playing_song ?st)"
    using located by blast
  have quiet: "mixer_log ?st' = []"
    using t8 by (simp only: s(4))
  have "truthy (now_playing_song ?st)"
    using playing by blast
  with w(1-3) d on pl at quiet show ?thesis
    by (simp add: s(1))
qed

subsection \<open>C4: shuffle and play\<close>

text \<open>
  Claim C4, as amended.  The claim says "for every state", but the handler is guarded by
  \<open>if view_playlist\<close>: when the current directory lists no audio file, \<open>s\<close> changes
  nothing, and \<open>shuffle_on\<close> is not forced.  When the view playlist is not empty, \<open>s\<close>
  sets \<open>shuffle_on\<close> and saves the configuration, makes the active playlist a shuffled
  copy of the view playlist, sets the index to 0 and asks the mixer to load the track at
  index 0.  If the load succeeds the track is played and is the current track; if the
  mixer refuses the file, the error is printed, nothing is played, and the track is the
  current track all the same; if the load raises any other exception, the program ends
  with it, the current track being the one it was.
\<close>

theorem shuffle_and_play:
  fixes w :: world and vp :: "path list" and st :: state
  defines "out \<equiv> cmd_shuffle_play w vp st"
    and "st' \<equiv> final_state (cmd_shuffle_play w vp st)"
  shows "(choice w = ''s'' \<longrightarrow> dispatch w af vp es st = out)
     \<and> (vp = [] \<longrightarrow> out = Continue st)
     \<and> (vp \<noteq> [] \<longrightarrow>
          shuffle_on (config st')
        \<and> (write_error w = None \<longrightarrow> config_file st' = Some (config st'))
        \<and> current_playlist st' = shuffle (randbelow w) vp
        \<and> mset (current_playlist st') = mset vp
        \<and> current_song_index st' = 0
        \<and> (case load w (current_playlist st' ! 0) of
              Loaded \<Rightarrow>
                out = Continue st'
              \<and> now_playing_song st' = Some (current_playlist st' ! 0)
              \<and> mixer_log st' = mixer_log st @ [Load (current_playlist st' ! 0), Play]
            | PygameError e \<Rightarrow>
                out = Continue st'
              \<and> now_playing_song st' = Some (current_playlist st' ! 0)
              \<and> mixer_log st' = mixer_log st @ [Load (current_playlist st' ! 0)]
              \<and> console st' \<noteq> []
              \<and> last (console st') = ErrorLoadingSong (basename (current_playlist st' ! 0)) e
            | LoadRaises x \<Rightarrow>
                out = Crash x st'
              \<and> now_playing_song st' = now_playing_song st
              \<and> mixer_log st' = mixer_log st @ [Load (current_playlist st' ! 0)]))"
proof -
  let ?s1 = "(save_config w (st\<lparr>config := (config st)\<lparr>shuffle_on := True\<rparr>\<rparr>))
               \<lparr>current_playlist := shuffle (randbelow w) vp, current_song_index := 0\<rparr>"
  have d: "choice w = ''s'' \<longrightarrow> dispatch w af vp es st = out"
    by (simp add: out_def dispatch_shuffle_play)
  have e: "vp = [] \<longrightarrow> out = Continue st"
    by (simp add: out_def cmd_shuffle_play_def)
  have n: "shuffle_on (config st')
        \<and> (write_error w = None \<longrightarrow> config_file st' = Some (config st'))
        \<and> current_playlist st' = shuffle (randbelow w) vp
        \<and> mset (current_playlist st') = mset vp
        \<and> current_song_index st' = 0
        \<and> (case load w (current_playlist st' ! 0) of
              Loaded \<Rightarrow>
                out = Continue st'
              \<and> now_playing_song st' = Some (current_playlist st' ! 0)
              \<and> mixer_log st' = mixer_log st @ [Load (current_playlist st' ! 0), Play]
            | PygameError e \<Rightarrow>
                out = Continue st'
              \<and> now_playing_song st' = Some (current_playlist st' ! 0)
              \<and> mixer_log st' = mixer_log st @ [Load (current_playlist st' ! 0)]
              \<and> console st' \<noteq> []
              \<and> last (console st') = ErrorLoadingSong (basename (current_playlist st' ! 0)) e
            | LoadRaises x \<Rightarrow>
                out = Crash x st'
              \<and> now_playing_song st' = now_playing_song st
              \<and> mixer_log st' = mixer_log st @ [Load (current_playlist st' ! 0)])"
    if "vp \<noteq> []"
  proof -
    have out: "cmd_shuffle_play w vp st = start_track w ?s1"
      using that by (simp add: cmd_shuffle_play_def)
    have kept: "shuffle_on (config st')" "current_playlist st' = shuffle (randbelow w) vp"
      "current_song_index st' = 0"
      "write_error w = None \<longrightarrow> config_file st' = Some (config st')"
      unfolding st'_def out by (simp_all add: save_config_file)
    have perm: "mset (current_playlist st') = mset vp"
      by (simp add: kept(2) shuffle_mset)
    have track: "case load w (shuffle (randbelow w) vp ! 0) of
              Loaded \<Rightarrow>
                out = Continue st'
              \<and> now_playing_song st' = Some (shuffle (randbelow w) vp ! 0)
              \<and> mixer_log st' = mixer_log st @ [Load (shuffle (randbelow w) vp ! 0), Play]
            | PygameError e \<Rightarrow>
                out = Continue st'
              \<and> now_playing_song st' = Some (shuffle (randbelow w) vp ! 0)
              \<and> mixer_log st' = mixer_log st @ [Load (shuffle (randbelow w) vp ! 0)]
              \<and> console st' \<noteq> []
              \<and> last (console st')
                  = ErrorLoadingSong (basename (shuffle (randbelow w) vp ! 0)) e
            | LoadRaises x \<Rightarrow>
                out = Crash x st'
              \<and> now_playing_song st' = now_playing_song st
              \<and> mixer_log st' = mixer_log st @ [Load (shuffle (randbelow w) vp ! 0)]"
      unfolding st'_def out_def out
      by (simp add: start_track_eq Let_def split: load_result.split)
    from kept(1,3,4) perm track show ?thesis
      unfolding kept(2) by simp
  qed
  from d e n show ?thesis
    by blast
qed

theorem shuffle_and_play_witness:
  "choice ((sample_world ''s'' [])\<lparr>randbelow := \<lambda>n. 7\<rparr>) = ''s''
   \<and> shuffle (\<lambda>n. 7) [''/music/a.mp3'', ''/music/b.mp3'', ''/music/live.mp3'']
       = [''/music/a.mp3'', ''/music/live.mp3'', ''/music/b.mp3'']
   \<and> load ((sample_world ''s'' [])\<lparr>randbelow := \<lambda>n. 7\<rparr>) ''/music/a.mp3'' = Loaded
   \<and> dispatch ((sample_world ''s'' [])\<lparr>randbelow := \<lambda>n. 7\<rparr>) []
        [''/music/a.mp3'', ''/music/b.mp3'', ''/music/live.mp3''] []
        (sample_state ''/music'' None [] [] (- 1))
      = Continue (final_state (cmd_shuffle_play ((sample_world ''s'' [])\<lparr>randbelow := \<lambda>n. 7\<rparr>)
          [''/music/a.mp3'', ''/music/b.mp3'', ''/music/live.mp3'']
          (sample_state ''/music'' None [] [] (- 1))))
   \<and> shuffle_on (config (final_state
        (cmd_shuffle_play ((sample_world ''s'' [])\<lparr>randbelow := \<lambda>n. 7\<rparr>)
          [''/music/a.mp3'', ''/music/b.mp3'', ''/music/live.mp3'']
          (sample_state ''/music'' None [] [] (- 1)))))
   \<and> current_song_index (final_state
        (cmd_shuffle_play ((sample_world ''s'' [])\<lparr>randbelow := \<lambda>n. 7\<rparr>)
          [''/music/a.mp3'', ''/music/b.mp3'', ''/music/live.mp3'']
          (sample_state ''/music'' None [] [] (- 1)))) = 0
   \<and> current_playlist (final_state
        (cmd_shuffle_play ((sample_world ''s'' [])\<lparr>randbelow := \<lambda>n. 7\<rparr>)
          [''/music/a.mp3'', ''/music/b.mp3'', ''/music/live.mp3'']
          (sample_state ''/music'' None [] [] (- 1))))
      = [''/music/a.mp3'', ''/music/live.mp3'', ''/music/b.mp3'']
   \<and> now_playing_song (final_state
        (cmd_shuffle_play ((sample_world ''s'' [])\<lparr>randbelow := \<lambda>n. 7\<rparr>)
          [''/music/a.mp3'', ''/music/b.mp3'', ''/music/live.mp3'']
          (sample_state ''/music'' None [] [] (- 1)))) = Some ''/music/a.mp3''
   \<and> mixer_log (final_state
        (cmd_shuffle_play ((sample_world ''s'' [])\<lparr>randbelow := \<lambda>n. 7\<rparr>)
          [''/music/a.mp3'', ''/music/b.mp3'', ''/music/live.mp3'']
          (sample_state ''/music'' None [] [] (- 1)))) = [Load ''/music/a.mp3'', Play]
   \<and> cmd_shuffle_play (sample_world ''s'' []) []
          (sample_state ''/music/live'' None [] [] (- 1))
      = Continue (sample_state ''/music/live'' None [] [] (- 1))"
proof -
  let ?w = "(sample_world ''s'' [])\<lparr>randbelow := \<lambda>n. 7\<rparr>"
  let ?vp = "[''/music/a.mp3'', ''/music/b.mp3'', ''/music/live.mp3'']"
  let ?st = "sample_state ''/music'' None [] [] (- 1)"
  let ?st' = "final_state (cmd_shuffle_play ?w ?vp ?st)"
  have w: "choice ?w = ''s''" "randbelow ?w = (\<lambda>n. 7)"
    by (simp_all add: sample_world_def)
  have l: "load ?w ''/music/a.mp3'' = Loaded"
    by code_simp
  have sh: "shuffle (\<lambda>n. 7) ?vp = [''/music/a.mp3'', ''/music/live.mp3'', ''/music/b.mp3'']"
    by code_simp
  have m: "mixer_log ?st = []"
    by (simp add: sample_state_def)
  have ne: "?vp \<noteq> []"
    by simp
  note t = shuffle_and_play [of ?w "[]" ?vp "[]" ?st]
  from t w(1) have d: "dispatch ?w [] ?vp [] ?st = cmd_shuffle_play ?w ?vp ?st"
    by blast
  from t ne have r: "shuffle_on (config ?st')" "current_song_index ?st' = 0"
    "current_playlist ?st' = shuffle (randbelow ?w) ?vp"
    by blast+
  have pl: "current_playlist ?st' = [''/music/a.mp3'', ''/music/live.mp3'', ''/music/b.mp3'']"
    by (simp only: r(3) w(2) sh)
  from t ne have "case load ?w (current_playlist ?st' ! 0) of
              Loaded \<Rightarrow>
                cmd_shuffle_play ?w ?vp ?st = Continue ?st'
              \<and> now_playing_song ?st' = Some (current_playlist ?st' ! 0)
              \<and> mixer_log ?st' = mixer_log ?st @ [Load (current_playlist ?st' ! 0), Play]
            | PygameError e \<Rightarrow>
                cmd_shuffle_play ?w ?vp ?st = Continue ?st'
              \<and> now_playing_song ?st' = Some (current_playlist ?st' ! 0)
              \<and> mixer_log ?st' = mixer_log ?st @ [Load (current_playlist ?st' ! 0)]
              \<and> console ?st' \<noteq> []
              \<and> last (console ?st')
                  = ErrorLoadingSong (basename (current_playlist ?st' ! 0)) e
            | LoadRaises x \<Rightarrow>
                cmd_shuffle_play ?w ?vp ?st = Crash x ?st'
              \<and> now_playing_song ?st' = now_playing_song ?st
              \<and> mixer_log ?st' = mixer_log ?st @ [Load (current_playlist ?st' ! 0)]"
    by blast
  then have "cmd_shuffle_play ?w ?vp ?st = Continue ?st'
      \<and> now_playing_song ?st' = Some ''/music/a.mp3''
      \<and> mixer_log ?st' = [] @ [Load ''/music/a.mp3'', Play]"
    unfolding pl nth_Cons_0 l m by (simp only: load_result.case)
  then have played: "cmd_shuffle_play ?w ?vp ?st = Continue ?st'"
    "now_playing_song ?st' = Some ''/music/a.mp3''"
    "mixer_log ?st' = [Load ''/music/a.mp3'', Play]"
    by simp_all
  from d played(1) have d': "dispatch ?w [] ?vp [] ?st = Continue ?st'"
    by (rule trans)
  from shuffle_and_play [of "sample_world ''s'' []" "[]" "[]" "[]"
      "sample_state ''/music/live'' None [] [] (- 1)"]
  have e: "cmd_shuffle_play (sample_world ''s'' []) []
        (sample_state ''/music/live'' None [] [] (- 1))
      = Continue (sample_state ''/music/live'' None [] [] (- 1))"
    by blast
  from w(1) sh l d' r(1,2) pl played(2,3) e show ?thesis
    by blast
qed

text \<open>
  The claim as stated fails in \<open>/music/live\<close>, which holds no audio file: after \<open>s\<close> the
  state is what it was, with \<open>shuffle_on\<close> still off and nothing played.
\<close>

theorem shuffle_and_play_counterexample:
  "choice (sample_world ''s'' []) = ''s''
   \<and> iteration (sample_world ''s'' []) (sample_state ''/music/live'' None [] [] (- 1))
       = Continue (sample_state ''/music/live'' None [] [] (- 1))
   \<and> \<not> shuffle_on (config (sample_state ''/music/live'' None [] [] (- 1)))
   \<and> current_song_index (sample_state ''/music/live'' None [] [] (- 1)) = - 1
   \<and> mixer_log (sample_state ''/music/live'' None [] [] (- 1)) = []"
  by code_simp

subsection \<open>C5: the directory listing\<close>

text \<open>
  Claim C5, as amended.  The folders of the listing are exactly the children that are
  directories, and both sequences are sorted ascending by name; but the audio files are
  the children whose names end in a recognised extension (case-sensitive), whatever they
  are: the filter is \<open>f.endswith(audio_extensions)\<close> alone, with no test that \<open>f\<close> is a
  regular file.  So the two sequences are not disjoint: they share exactly the directories
  whose names end in a recognised extension.
\<close>

theorem directory_listing:
  "mset (folders_of w cur (sort names)) = filter_mset (\<lambda>d. isdir w (join cur d)) (mset names)
   \<and> mset (audio_files_of (sort names))
       = filter_mset (\<lambda>f. \<exists>e \<in> set audio_extensions. suffix e f) (mset names)
   \<and> sorted (folders_of w cur (sort names))
   \<and> sorted (audio_files_of (sort names))
   \<and> set (folders_of w cur (sort names)) \<inter> set (audio_files_of (sort names))
       = {d \<in> set names. isdir w (join cur d) \<and> (\<exists>e \<in> set audio_extensions. suffix e d)}"
  by (auto simp: folders_of_def audio_files_of_def endswith_def list_ex_iff sorted_filter_sort)

text \<open>
  The claim as stated fails in \<open>/music\<close>: the directory \<open>live.mp3\<close> is listed among the
  folders and among the audio files, and it is not a regular file.
\<close>

theorem directory_listing_counterexample:
  "listdir (sample_world [] []) ''/music'' = Entries music_names
   \<and> folders_of (sample_world [] []) ''/music'' (sort music_names)
       = [''big'', ''live'', ''live.mp3'']
   \<and> audio_files_of (sort music_names) = [''a.mp3'', ''b.mp3'', ''live.mp3'']
   \<and> isdir (sample_world [] []) (join ''/music'' ''live.mp3'')
   \<and> \<not> isfile (sample_world [] []) (join ''/music'' ''live.mp3'')"
  by code_simp

subsection \<open>C6: next and previous wrap around\<close>

text \<open>
  Claim C6, as amended.  With the queue empty, a playlist that is not empty and an index
  that is not \<open>-1\<close>, \<open>>\<close> sets \<open>current_song_index\<close> to \<open>(index + 1) mod length\<close> and
  \<open><\<close> sets it to \<open>(index - 1) mod length\<close>, wrapping in both directions (with three
  tracks, next from index 2 gives 0 and previous from index 0 gives 2), and each asks the
  mixer to load the track at the new index.  If the load succeeds the track is played and
  is the current track; if the mixer refuses the file, the error is printed, nothing is
  played, and the track is the current track all the same; if the load raises any other
  exception, the program ends with it, the index already moved and the current track the
  one it was.  Both commands leave the state as it is when the playlist is empty or the
  index is \<open>-1\<close>.
\<close>

theorem next_previous_wrap:
  fixes w :: world and st :: state
  defines "n \<equiv> int (length (current_playlist st))"
    and "moved \<equiv> \<lambda>i.
      (case load w (current_playlist st ! nat i) of
         Loaded \<Rightarrow>
           Continue (st\<lparr>current_song_index := i,
                        now_playing_song := Some (current_playlist st ! nat i),
                        mixer_log := mixer_log st @ [Load (current_playlist st ! nat i), Play]\<rparr>)
       | PygameError e \<Rightarrow>
           Continue (st\<lparr>current_song_index := i,
                        now_playing_song := Some (current_playlist st ! nat i),
                        mixer_log := mixer_log st @ [Load (current_playlist st ! nat i)],
                        console := console st
                          @ [ErrorLoadingSong (basename (current_playlist st ! nat i)) e]\<rparr>)
       | LoadRaises x \<Rightarrow>
           Crash x (st\<lparr>current_song_index := i,
                       mixer_log := mixer_log st @ [Load (current_playlist st ! nat i)]\<rparr>))"
  assumes "queue st = []"
  shows "(choice w = ''>'' \<longrightarrow> dispatch w af vp es st = cmd_next w st)
     \<and> (choice w = ''<'' \<longrightarrow> dispatch w af vp es st = cmd_previous w st)
     \<and> (current_playlist st \<noteq> [] \<and> current_song_index st \<noteq> - 1 \<longrightarrow>
          cmd_next w st = moved ((current_song_index st + 1) mod n)
        \<and> cmd_previous w st = moved ((current_song_index st - 1) mod n)
        \<and> 0 \<le> (current_song_index st + 1) mod n \<and> (current_song_index st + 1) mod n < n
        \<and> 0 \<le> (current_song_index st - 1) mod n \<and> (current_song_index st - 1) mod n < n
        \<and> (n = 3 \<and> current_song_index st = 2 \<longrightarrow> cmd_next w st = moved 0)
        \<and> (n = 3 \<and> current_song_index st = 0 \<longrightarrow> cmd_previous w st = moved 2))
     \<and> (current_playlist st = [] \<or> current_song_index st = - 1 \<longrightarrow>
          cmd_next w st = Continue st \<and> cmd_previous w st = Continue st)"
proof -
  have d: "choice w = ''>'' \<longrightarrow> dispatch w af vp es st = cmd_next w st"
    "choice w = ''<'' \<longrightarrow> dispatch w af vp es st = cmd_previous w st"
    by (simp_all add: dispatch_next dispatch_previous)
  have start: "start_track w (st\<lparr>current_song_index := i\<rparr>) = moved i" for i
    by (simp add: start_track_eq moved_def Let_def split: load_result.split)
  have still: "current_playlist st = [] \<or> current_song_index st = - 1 \<longrightarrow>
          cmd_next w st = Continue st \<and> cmd_previous w st = Continue st"
    using assms(3) by (auto simp: cmd_next_def cmd_previous_def)
  have moving: "cmd_next w st = moved ((current_song_index st + 1) mod n)
        \<and> cmd_previous w st = moved ((current_song_index st - 1) mod n)
        \<and> 0 \<le> (current_song_index st + 1) mod n \<and> (current_song_index st + 1) mod n < n
        \<and> 0 \<le> (current_song_index st - 1) mod n \<and> (current_song_index st - 1) mod n < n
        \<and> (n = 3 \<and> current_song_index st = 2 \<longrightarrow> cmd_next w st = moved 0)
        \<and> (n = 3 \<and> current_song_index st = 0 \<longrightarrow> cmd_previous w st = moved 2)"
    if "current_playlist st \<noteq> [] \<and> current_song_index st \<noteq> - 1"
  proof -
    from that have pos: "0 < n"
      by (simp add: n_def)
    have nx: "cmd_next w st = moved ((current_song_index st + 1) mod n)"
      using that assms(3) by (simp add: cmd_next_def start n_def)
    have pv: "cmd_previous w st = moved ((current_song_index st - 1) mod n)"
      using that by (simp add: cmd_previous_def start n_def)
    have b: "0 \<le> (current_song_index st + 1) mod n" "(current_song_index st + 1) mod n < n"
      "0 \<le> (current_song_index st - 1) mod n" "(current_song_index st - 1) mod n < n"
      using pos by simp_all
    have three: "n = 3 \<and> current_song_index st = 2 \<longrightarrow> cmd_next w st = moved 0"
      "n = 3 \<and> current_song_index st = 0 \<longrightarrow> cmd_previous w st = moved 2"
      unfolding nx pv by auto
    from nx pv b three show ?thesis
      by blast
  qed
  from d moving still show ?thesis
    by blast
qed

theorem next_previous_wrap_witness:
  "queue (sample_state ''/music/big'' (Some ''/music/big/c.mp3'') []
            [''/music/big/a.mp3'', ''/music/big/b.mp3'', ''/music/big/c.mp3''] 2) = []
   \<and> load (sample_world ''>'' []) ''/music/big/a.mp3'' = Loaded
   \<and> cmd_next (sample_world ''>'' [])
        (sample_state ''/music/big'' (Some ''/music/big/c.mp3'') []
           [''/music/big/a.mp3'', ''/music/big/b.mp3'', ''/music/big/c.mp3''] 2)
      = Continue
          ((sample_state ''/music/big'' (Some ''/music/big/a.mp3'') []
              [''/music/big/a.mp3'', ''/music/big/b.mp3'', ''/music/big/c.mp3''] 0)
             \<lparr>mixer_log := [Load ''/music/big/a.mp3'', Play]\<rparr>)
   \<and> queue (sample_state ''/music/big'' (Some ''/music/big/a.mp3'') []
            [''/music/big/a.mp3'', ''/music/big/b.mp3'', ''/music/big/c.mp3''] 0) = []
   \<and> load (sample_world ''<'' []) ''/music/big/c.mp3'' = Loaded
   \<and> cmd_previous (sample_world ''<'' [])
        (sample_state ''/music/big'' (Some ''/music/big/a.mp3'') []
           [''/music/big/a.mp3'', ''/music/big/b.mp3'', ''/music/big/c.mp3''] 0)
      = Continue
          ((sample_state ''/music/big'' (Some ''/music/big/c.mp3'') []
              [''/music/big/a.mp3'', ''/music/big/b.mp3'', ''/music/big/c.mp3''] 2)
             \<lparr>mixer_log := [Load ''/music/big/c.mp3'', Play]\<rparr>)
   \<and> cmd_next (sample_world ''>'' [])
        (sample_state ''/music/big'' (Some ''/music/a.mp3'') []
           [''/music/big/a.mp3'', ''/music/big/b.mp3'', ''/music/big/c.mp3''] (- 1))
      = Continue
          (sample_state ''/music/big'' (Some ''/music/a.mp3'') []
             [''/music/big/a.mp3'', ''/music/big/b.mp3'', ''/music/big/c.mp3''] (- 1))"
proof -
  let ?n = "sample_world ''>'' []" and ?p = "sample_world ''<'' []"
  let ?pl = "[''/music/big/a.mp3'', ''/music/big/b.mp3'', ''/music/big/c.mp3'']"
  let ?s2 = "sample_state ''/music/big'' (Some ''/music/big/c.mp3'') [] ?pl 2"
  let ?s0 = "sample_state ''/music/big'' (Some ''/music/big/a.mp3'') [] ?pl 0"
  let ?sq = "sample_state ''/music/big'' (Some ''/music/a.mp3'') [] ?pl (- 1)"
  have q: "queue ?s2 = []" "queue ?s0 = []" "queue ?sq = []"
    and s2: "current_playlist ?s2 \<noteq> [] \<and> current_song_index ?s2 \<noteq> - 1"
      "int (length (current_playlist ?s2)) = 3 \<and> current_song_index ?s2 = 2"
    and s0: "current_playlist ?s0 \<noteq> [] \<and> current_song_index ?s0 \<noteq> - 1"
      "int (length (current_playlist ?s0)) = 3 \<and> current_song_index ?s0 = 0"
    and sq: "current_playlist ?sq = [] \<or> current_song_index ?sq = - 1"
    by (simp_all add: sample_state_def)
  have l: "load ?n ''/music/big/a.mp3'' = Loaded" "load ?p ''/music/big/c.mp3'' = Loaded"
    by code_simp+
  note tn = next_previous_wrap [OF q(1), of ?n "[]" "[]" "[]"]
    and tp = next_previous_wrap [OF q(2), of ?p "[]" "[]" "[]"]
    and tq = next_previous_wrap [OF q(3), of ?n "[]" "[]" "[]"]
  from tn s2 have "cmd_next ?n ?s2 =
      (case load ?n (current_playlist ?s2 ! nat 0) of
         Loaded \<Rightarrow>
           Continue (?s2\<lparr>current_song_index := 0,
                        now_playing_song := Some (current_playlist ?s2 ! nat 0),
                        mixer_log := mixer_log ?s2 @ [Load (current_playlist ?s2 ! nat 0), Play]\<rparr>)
       | PygameError e \<Rightarrow>
           Continue (?s2\<lparr>current_song_index := 0,
                        now_playing_song := Some (current_playlist ?s2 ! nat 0),
                        mixer_log := mixer_log ?s2 @ [Load (current_playlist ?s2 ! nat 0)],
                        console := console ?s2
                          @ [ErrorLoadingSong (basename (current_playlist ?s2 ! nat 0)) e]\<rparr>)
       | LoadRaises x \<Rightarrow>
           Crash x (?s2\<lparr>current_song_index := 0,
                       mixer_log := mixer_log ?s2 @ [Load (current_playlist ?s2 ! nat 0)]\<rparr>))"
    by blast
  then have forward: "cmd_next ?n ?s2
      = Continue ((sample_state ''/music/big'' (Some ''/music/big/a.mp3'') [] ?pl 0)
          \<lparr>mixer_log := [Load ''/music/big/a.mp3'', Play]\<rparr>)"
    using l(1) by (simp add: sample_state_def)
  from tp s0 have "cmd_previous ?p ?s0 =
      (case load ?p (current_playlist ?s0 ! nat 2) of
         Loaded \<Rightarrow>
           Continue (?s0\<lparr>current_song_index := 2,
                        now_playing_song := Some (current_playlist ?s0 ! nat 2),
                        mixer_log := mixer_log ?s0 @ [Load (current_playlist ?s0 ! nat 2), Play]\<rparr>)
       | PygameError e \<Rightarrow>
           Continue (?s0\<lparr>current_song_index := 2,
                        now_playing_song := Some (current_playlist ?s0 ! nat 2),
                        mixer_log := mixer_log ?s0 @ [Load (current_playlist ?s0 ! nat 2)],
                        console := console ?s0
                          @ [ErrorLoadingSong (basename (current_playlist ?s0 ! nat 2)) e]\<rparr>)
       | LoadRaises x \<Rightarrow>
           Crash x (?s0\<lparr>current_song_index := 2,
                       mixer_log := mixer_log ?s0 @ [Load (current_playlist ?s0 ! nat 2)]\<rparr>))"
    by blast
  then have backward: "cmd_previous ?p ?s0
      = Continue ((sample_state ''/music/big'' (Some ''/music/big/c.mp3'') [] ?pl 2)
          \<lparr>mixer_log := [Load ''/music/big/c.mp3'', Play]\<rparr>)"
    using l(2) by (simp add: sample_state_def)
  from tq sq have still: "cmd_next ?n ?sq = Continue ?sq"
    by blast
  from q(1,2) l forward backward still show ?thesis
    by blast
qed

text \<open>
  The claim as stated fails in \<open>/music\<close> with the sorted playlist, \<open>b.mp3\<close> current at
  index 1 and \<open>>\<close> typed: the track at index 2 is \<open>live.mp3\<close>, a directory, which the
  mixer cannot open.  The index moves to 2 and the program ends with the exception of the
  load: nothing is played, and the current track is still \<open>b.mp3\<close>.
\<close>

theorem next_previous_wrap_counterexample:
  "choice (sample_world ''>'' []) = ''>''
   \<and> queue (sample_state ''/music'' (Some ''/music/b.mp3'') []
            [''/music/a.mp3'', ''/music/b.mp3'', ''/music/live.mp3''] 1) = []
   \<and> isdir (sample_world ''>'' []) ''/music/live.mp3''
   \<and> iteration (sample_world ''>'' [])
        (sample_state ''/music'' (Some ''/music/b.mp3'') []
           [''/music/a.mp3'', ''/music/b.mp3'', ''/music/live.mp3''] 1)
      = Crash (OtherException ''FileNotFoundError'')
          ((sample_state ''/music'' (Some ''/music/b.mp3'') []
              [''/music/a.mp3'', ''/music/b.mp3'', ''/music/live.mp3''] 2)
             \<lparr>mixer_log := [Load ''/music/live.mp3'']\<rparr>)"
  by code_simp

subsection \<open>C7: pagination\<close>

text \<open>
  Claim C7.  In an iteration that reaches the prompt (the end-of-track events that came
  before it were handled without an exception), in a directory that can be listed, \<open>n\<close>
  adds one to \<open>current_page\<close> exactly when \<open>current_page * page_size + page_size\<close> is
  less than the number of audio files, and otherwise sets it to 0; \<open>p\<close> subtracts one but
  never goes below 0; both save the configuration.  With a page size of 10 and 25 audio
  files, \<open>n\<close> takes the page from 0 to 1, from 1 to 2 and from 2 back to 0, and \<open>p\<close> at
  page 0 stays at page 0.
\<close>

theorem pagination:
  assumes "handle_events w (end_events w) st = Continue st1"
    and "listdir w (current_path st) = Entries names"
  shows "(choice w = ''n'' \<longrightarrow>
      (\<exists>st'. iteration w st = Continue st'
         \<and> current_page (config st') =
             (if current_page (config st) * page_size (config st) + page_size (config st)
                   < int (length (audio_files_of (sort names)))
              then current_page (config st) + 1 else 0)
         \<and> (page_size (config st) = 10 \<and> length (audio_files_of (sort names)) = 25
              \<and> current_page (config st) \<in> {0, 1, 2} \<longrightarrow>
              current_page (config st') = (current_page (config st) + 1) mod 3)
         \<and> (write_error w = None \<longrightarrow> config_file st' = Some (config st'))))
   \<and> (choice w = ''p'' \<longrightarrow>
      (\<exists>st'. iteration w st = Continue st'
         \<and> current_page (config st') = max 0 (current_page (config st) - 1)
         \<and> 0 \<le> current_page (config st')
         \<and> (current_page (config st) = 0 \<longrightarrow> current_page (config st') = 0)
         \<and> (write_error w = None \<longrightarrow> config_file st' = Some (config st'))))"
  by (auto simp: iteration_listed [OF assms] handle_events_Continue(1) [OF assms(1)]
      dispatch_next_page dispatch_previous_page
      cmd_next_page_def cmd_previous_page_def start_index_def save_config_file)

theorem pagination_witness:
  "handle_events (sample_world ''n'' []) (end_events (sample_world ''n'' [])) (on_page 0)
     = Continue (on_page 0)
   \<and> listdir (sample_world ''n'' []) (current_path (on_page 0)) = Entries big_names
   \<and> page_size (config (on_page 0)) = 10
   \<and> length (audio_files_of (sort big_names)) = 25
   \<and> current_page (config (final_state (iteration (sample_world ''n'' []) (on_page 0)))) = 1
   \<and> current_page (config (final_state (iteration (sample_world ''n'' []) (on_page 1)))) = 2
   \<and> current_page (config (final_state (iteration (sample_world ''n'' []) (on_page 2)))) = 0
   \<and> current_page (config (final_state (iteration (sample_world ''p'' []) (on_page 0)))) = 0
   \<and> current_page (config (final_state (iteration (sample_world ''p'' []) (on_page 2)))) = 1
   \<and> config_file (final_state (iteration (sample_world ''n'' []) (on_page 0)))
       = Some (sample_config\<lparr>current_page := 1\<rparr>)"
proof -
  let ?n = "sample_world ''n'' []" and ?p = "sample_world ''p'' []"
  have ev: "handle_events ?n (end_events ?n) (on_page k) = Continue (on_page k)"
    "handle_events ?p (end_events ?p) (on_page k) = Continue (on_page k)" for k
    by (simp_all add: sample_world_def)
  have l: "listdir ?n (current_path (on_page k)) = Entries big_names"
    "listdir ?p (current_path (on_page k)) = Entries big_names" for k
    by (simp_all add: on_page_def sample_world_def sample_state_def)
  have c: "choice ?n = ''n''" "choice ?p = ''p''" "write_error ?n = None"
    by (simp_all add: sample_world_def)
  have s: "page_size (config (on_page k)) = 10" "current_page (config (on_page k)) = k"
    "config (on_page k) = sample_config\<lparr>current_page := k\<rparr>" for k
    by (simp_all add: on_page_def sample_config_def)
  have n: "current_page (config (final_state (iteration ?n (on_page k)))) = (k + 1) mod 3
      \<and> (write_error ?n = None \<longrightarrow>
           config_file (final_state (iteration ?n (on_page k)))
             = Some (config (final_state (iteration ?n (on_page k)))))"
    if "k \<in> {0, 1, 2}" for k
    using pagination [OF ev(1) [of k] l(1) [of k]] c(1) that big_names_audio
    by (auto simp: s(1,2))
  have p: "current_page (config (final_state (iteration ?p (on_page k)))) = max 0 (k - 1)"
    for k
    using pagination [OF ev(2) [of k] l(2) [of k]] c(2) by (auto simp: s(1,2))
  have "config_file (final_state (iteration ?n (on_page 0)))
      = Some (config (final_state (iteration ?n (on_page 0))))"
    using n [of 0] c(3) by simp
  moreover have "config (final_state (iteration ?n (on_page 0)))
      = sample_config\<lparr>current_page := 1\<rparr>"
    by code_simp
  ultimately show ?thesis
    using n [of 0] n [of 1] n [of 2] p [of 0] p [of 2] l(1) [of 0] s(1) [of 0] big_names_audio
      ev(1) [of 0]
    by simp
qed

subsection \<open>C8: volume steps\<close>

text \<open>
  Claim C8, as amended.  The volume is a binary64 float, and so is the step: \<open>+\<close> stores
  \<open>min(1.0, volume + 0.1)\<close> and \<open>-\<close> stores \<open>max(0.0, volume - 0.1)\<close>, each sum rounded to
  the nearest binary64 number.  For every starting volume between 0 and 1 the stored
  value stays between 0 and 1, is handed to the mixer at once and is saved with the
  configuration; it is the volume plus or minus one tenth, clamped, up to rounding only:
  it lies within \<open>2 ^ -52\<close> of the exact value, and need not be equal to it.
\<close>

theorem volume_steps:
  assumes "0 \<le> volume (config st)" "volume (config st) \<le> 1"
  shows "(choice w = ''+'' \<longrightarrow> dispatch w af vp es st = Continue (cmd_volume_up w st))
     \<and> (choice w = ''-'' \<longrightarrow> dispatch w af vp es st = Continue (cmd_volume_down w st))
     \<and> volume (config (cmd_volume_up w st)) = min 1 (round64 (volume (config st) + tenth))
     \<and> volume (config (cmd_volume_down w st)) = max 0 (round64 (volume (config st) - tenth))
     \<and> \<bar>volume (config (cmd_volume_up w st)) - min 1 (volume (config st) + 1 / 10)\<bar>
          \<le> 1 / 2 ^ 52
     \<and> \<bar>volume (config (cmd_volume_down w st)) - max 0 (volume (config st) - 1 / 10)\<bar>
          \<le> 1 / 2 ^ 52
     \<and> (\<forall>st' \<in> {cmd_volume_up w st, cmd_volume_down w st}.
           0 \<le> volume (config st') \<and> volume (config st') \<le> 1
         \<and> mixer_log st' = mixer_log st @ [SetVolume (volume (config st'))]
         \<and> (write_error w = None \<longrightarrow> config_file st' = Some (config st')))"
proof -
  note up = volume_up_bounds [OF assms] and down = volume_down_bounds [OF assms]
  have 1: "choice w = ''+'' \<longrightarrow> dispatch w af vp es st = Continue (cmd_volume_up w st)"
    and 2: "choice w = ''-'' \<longrightarrow> dispatch w af vp es st = Continue (cmd_volume_down w st)"
    by (simp_all add: dispatch_volume_up dispatch_volume_down)
  have 3: "volume (config (cmd_volume_up w st)) = min 1 (round64 (volume (config st) + tenth))"
    and 4: "volume (config (cmd_volume_down w st))
        = max 0 (round64 (volume (config st) - tenth))"
    by (simp_all add: cmd_volume_up_def cmd_volume_down_def set_volume_effect)
  have 5: "\<bar>volume (config (cmd_volume_up w st)) - min 1 (volume (config st) + 1 / 10)\<bar>
      \<le> 1 / 2 ^ 52"
    unfolding 3 by (rule up(3))
  have 6: "\<bar>volume (config (cmd_volume_down w st)) - max 0 (volume (config st) - 1 / 10)\<bar>
      \<le> 1 / 2 ^ 52"
    unfolding 4 by (rule down(3))
  have 7: "0 \<le> volume (config st') \<and> volume (config st') \<le> 1
         \<and> mixer_log st' = mixer_log st @ [SetVolume (volume (config st'))]
         \<and> (write_error w = None \<longrightarrow> config_file st' = Some (config st'))"
    if "st' = cmd_volume_up w st \<or> st' = cmd_volume_down w st" for st'
  proof -
    from that obtain v where st': "st' = set_volume w v st" and v: "0 \<le> v" "v \<le> 1"
      using up(1,2) down(1,2) by (auto simp: cmd_volume_up_def cmd_volume_down_def)
    show ?thesis
      unfolding st' using v by (simp add: set_volume_effect)
  qed
  from 1 2 3 4 5 6 7 show ?thesis
    by blast
qed

theorem volume_steps_witness:
  "0 \<le> volume (config (sample_state ''/music'' None [] [] (- 1)))
   \<and> volume (config (sample_state ''/music'' None [] [] (- 1))) \<le> 1
   \<and> choice (sample_world ''+'' []) = ''+''
   \<and> dispatch (sample_world ''+'' []) [] [] [] (sample_state ''/music'' None [] [] (- 1))
       = Continue (cmd_volume_up (sample_world ''+'' [])
           (sample_state ''/music'' None [] [] (- 1)))
   \<and> volume (config (cmd_volume_up (sample_world ''+'' [])
        (sample_state ''/music'' None [] [] (- 1))))
       = 5404319552844595 / 9007199254740992
   \<and> volume (config (cmd_volume_down (sample_world ''+'' [])
        (sample_state ''/music'' None [] [] (- 1))))
       = 3602879701896397 / 9007199254740992
   \<and> mixer_log (cmd_volume_up (sample_world ''+'' [])
        (sample_state ''/music'' None [] [] (- 1)))
       = [SetVolume (5404319552844595 / 9007199254740992)]"
proof -
  let ?w = "sample_world ''+'' []"
  let ?st = "sample_state ''/music'' None [] [] (- 1)"
  have v: "volume (config ?st) = 1 / 2"
    by (simp add: sample_state_def sample_config_def)
  have b: "0 \<le> volume (config ?st)" "volume (config ?st) \<le> 1"
    by (simp_all add: v)
  have c: "choice ?w = ''+''" and m: "mixer_log ?st = []"
    by (simp_all add: sample_world_def sample_state_def)
  have r: "round64 (1 / 2 + tenth) = 5404319552844595 / 9007199254740992"
    "round64 (1 / 2 - tenth) = 3602879701896397 / 9007199254740992"
    by code_simp+
  note t = volume_steps [OF b, of ?w "[]" "[]" "[]"]
  from t c have d: "dispatch ?w [] [] [] ?st = Continue (cmd_volume_up ?w ?st)"
    by blast
  from t have up: "volume (config (cmd_volume_up ?w ?st)) = min 1 (round64 (1 / 2 + tenth))"
    and down: "volume (config (cmd_volume_down ?w ?st)) = max 0 (round64 (1 / 2 - tenth))"
    unfolding v by blast+
  from t have "mixer_log (cmd_volume_up ?w ?st)
      = mixer_log ?st @ [SetVolume (volume (config (cmd_volume_up ?w ?st)))]"
    by blast
  with b c d up down show ?thesis
    by (simp add: r m)
qed

text \<open>
  The claim as stated fails at the default volume \<open>0.5\<close>: \<open>+\<close> stores the binary64 number
  written \<open>0.6\<close>, and the step from \<open>0.5\<close> to it is \<open>0.09999999999999998\<close>: neither one
  tenth nor the binary64 number written \<open>0.1\<close>.
\<close>

theorem volume_steps_counterexample:
  "choice (sample_world ''+'' []) = ''+''
   \<and> volume (config (sample_state ''/music'' None [] [] (- 1))) = 1 / 2
   \<and> volume (config (final_state (iteration (sample_world ''+'' [])
        (sample_state ''/music'' None [] [] (- 1)))))
       = 5404319552844595 / 9007199254740992
   \<and> 5404319552844595 / 9007199254740992 - 1 / 2 \<noteq> (1 / 10 :: rat)
   \<and> 5404319552844595 / 9007199254740992 - 1 / 2 \<noteq> tenth"
  by code_simp

subsection \<open>C9: the queue is first in, first out\<close>

text \<open>
  Claim C9.  The queue changes in three ways only.  Each end-of-track event removes its
  head: \<open>n\<close> events remove the first \<open>n\<close> tracks, and fewer of them are handled only
  when the program ends before the last.  The line typed decides what a command does to
  the queue: \<open>add\<close>, followed by the number of a menu entry that is a regular file,
  appends that file at the tail, and any other \<open>add\<close> leaves the queue as it is; \<open>clear\<close>
  empties it; \<open>>\<close> removes its head; every other command leaves it as it is.  The head
  removed by the event or by \<open>>\<close> is the track handed to the mixer.  So, starting from an
  empty queue, after adding \<open>a\<close> and then \<open>b\<close>, the first track taken from the queue is
  \<open>a\<close> and, the loop going on, the second is \<open>b\<close>.
\<close>

theorem queue_is_fifo:
  "(\<exists>k \<le> n. queue (final_state (handle_events w n st)) = drop k (queue st))
   \<and> (\<forall>st'. handle_events w n st = Continue st' \<longrightarrow> queue st' = drop n (queue st))
   \<and> queue (final_state (dispatch w af vp es st)) =
       (if choice w = ''add'' then
          (case parse_int w (add_line w) of
             None \<Rightarrow> queue st
           | Some k \<Rightarrow>
               (case item_map es k of
                  None \<Rightarrow> queue st
                | Some p \<Rightarrow> if isfile w p then queue st @ [p] else queue st))
        else if choice w = ''clear'' then []
        else if choice w = ''>'' then tl (queue st)
        else queue st)
   \<and> (\<forall>h q qs. (h = on_song_end w \<or> h = cmd_next w) \<and> queue st = q # qs \<longrightarrow>
         queue (final_state (h st)) = qs
       \<and> mixer_log (final_state (h st))
           = mixer_log st @ Load q # (if load w q = Loaded then [Play] else []))
   \<and> (\<forall>wa wb ka kb a b pa pb s.
         queue st = []
         \<and> parse_int wa (add_line wa) = Some ka \<and> item_map es ka = Some a \<and> isfile wa a
         \<and> parse_int wb (add_line wb) = Some kb \<and> item_map es kb = Some b \<and> isfile wb b
         \<and> (pa = on_song_end w \<or> pa = cmd_next w)
         \<and> (pb = on_song_end w \<or> pb = cmd_next w) \<longrightarrow>
         queue (cmd_add wb es (cmd_add wa es st)) = [a, b]
         \<and> queue (final_state (pa (cmd_add wb es (cmd_add wa es st)))) = [b]
         \<and> mixer_log (final_state (pa (cmd_add wb es (cmd_add wa es st))))
             = mixer_log st @ Load a # (if load w a = Loaded then [Play] else [])
         \<and> (pa (cmd_add wb es (cmd_add wa es st)) = Continue s \<longrightarrow>
               queue (final_state (pb s)) = []
             \<and> mixer_log (final_state (pb s))
                 = mixer_log s @ Load b # (if load w b = Loaded then [Play] else [])))"
proof -
  have events: "\<exists>k \<le> n. queue (final_state (handle_events w n st)) = drop k (queue st)"
    by (rule handle_events_queue_suffix)
  have handled: "\<forall>st'. handle_events w n st = Continue st' \<longrightarrow> queue st' = drop n (queue st)"
    by (simp add: handle_events_queue)
  have step: "queue (final_state (dispatch w af vp es st)) =
       (if choice w = ''add'' then
          (case parse_int w (add_line w) of
             None \<Rightarrow> queue st
           | Some k \<Rightarrow>
               (case item_map es k of
                  None \<Rightarrow> queue st
                | Some p \<Rightarrow> if isfile w p then queue st @ [p] else queue st))
        else if choice w = ''clear'' then []
        else if choice w = ''>'' then tl (queue st)
        else queue st)"
    by (simp only: dispatch_queue cmd_add_queue)
  have pop: "\<forall>h q qs. (h = on_song_end w \<or> h = cmd_next w) \<and> queue st = q # qs \<longrightarrow>
         queue (final_state (h st)) = qs
       \<and> mixer_log (final_state (h st))
           = mixer_log st @ Load q # (if load w q = Loaded then [Play] else [])"
  proof (intro allI impI, elim conjE)
    fix h q qs
    assume h: "h = on_song_end w \<or> h = cmd_next w" and q: "queue st = q # qs"
    from pop_head [OF q h]
    show "queue (final_state (h st)) = qs
       \<and> mixer_log (final_state (h st))
           = mixer_log st @ Load q # (if load w q = Loaded then [Play] else [])"
      by (rule conjI)
  qed
  have scenario: "\<forall>wa wb ka kb a b pa pb s.
         queue st = []
         \<and> parse_int wa (add_line wa) = Some ka \<and> item_map es ka = Some a \<and> isfile wa a
         \<and> parse_int wb (add_line wb) = Some kb \<and> item_map es kb = Some b \<and> isfile wb b
         \<and> (pa = on_song_end w \<or> pa = cmd_next w)
         \<and> (pb = on_song_end w \<or> pb = cmd_next w) \<longrightarrow>
         queue (cmd_add wb es (cmd_add wa es st)) = [a, b]
         \<and> queue (final_state (pa (cmd_add wb es (cmd_add wa es st)))) = [b]
         \<and> mixer_log (final_state (pa (cmd_add wb es (cmd_add wa es st))))
             = mixer_log st @ Load a # (if load w a = Loaded then [Play] else [])
         \<and> (pa (cmd_add wb es (cmd_add wa es st)) = Continue s \<longrightarrow>
               queue (final_state (pb s)) = []
             \<and> mixer_log (final_state (pb s))
                 = mixer_log s @ Load b # (if load w b = Loaded then [Play] else []))"
  proof (intro allI impI, elim conjE)
    fix wa wb ka kb a b pa pb s
    assume empty: "queue st = []"
      and a: "parse_int wa (add_line wa) = Some ka" "item_map es ka = Some a" "isfile wa a"
      and b: "parse_int wb (add_line wb) = Some kb" "item_map es kb = Some b" "isfile wb b"
      and pa: "pa = on_song_end w \<or> pa = cmd_next w"
      and pb: "pb = on_song_end w \<or> pb = cmd_next w"
    let ?s2 = "cmd_add wb es (cmd_add wa es st)"
    have q2: "queue ?s2 = [a, b]"
      by (simp add: cmd_add_queue empty a b)
    have m2: "mixer_log ?s2 = mixer_log st"
      by (simp only: cmd_add_mixer)
    note first = pop_head [OF q2 pa]
    have second: "pa ?s2 = Continue s \<longrightarrow>
          queue (final_state (pb s)) = []
        \<and> mixer_log (final_state (pb s))
            = mixer_log s @ Load b # (if load w b = Loaded then [Play] else [])"
    proof
      assume "pa ?s2 = Continue s"
      with first(1) have "queue s = [b]"
        by simp
      from pop_head [OF this pb]
      show "queue (final_state (pb s)) = []
        \<and> mixer_log (final_state (pb s))
            = mixer_log s @ Load b # (if load w b = Loaded then [Play] else [])"
        by (rule conjI)
    qed
    from first(2) have log: "mixer_log (final_state (pa ?s2))
        = mixer_log st @ Load a # (if load w a = Loaded then [Play] else [])"
      by (simp only: m2)
    show "queue ?s2 = [a, b]
         \<and> queue (final_state (pa ?s2)) = [b]
         \<and> mixer_log (final_state (pa ?s2))
             = mixer_log st @ Load a # (if load w a = Loaded then [Play] else [])
         \<and> (pa ?s2 = Continue s \<longrightarrow>
               queue (final_state (pb s)) = []
             \<and> mixer_log (final_state (pb s))
                 = mixer_log s @ Load b # (if load w b = Loaded then [Play] else []))"
      by (rule conjI [OF q2 conjI [OF first(1) conjI [OF log second]]])
  qed
  show ?thesis
    by (rule conjI [OF events conjI [OF handled conjI [OF step conjI [OF pop scenario]]]])
qed

theorem queue_is_fifo_witness:
  "queue (sample_state ''/music/big'' None [] [] (- 1)) = []
   \<and> parse_int (sample_world ''add'' ''1'') (add_line (sample_world ''add'' ''1'')) = Some 1
   \<and> item_map [''/music/big/a.mp3'', ''/music/big/b.mp3''] 1 = Some ''/music/big/a.mp3''
   \<and> isfile (sample_world ''add'' ''1'') ''/music/big/a.mp3''
   \<and> parse_int (sample_world ''add'' ''2'') (add_line (sample_world ''add'' ''2'')) = Some 2
   \<and> item_map [''/music/big/a.mp3'', ''/music/big/b.mp3''] 2 = Some ''/music/big/b.mp3''
   \<and> isfile (sample_world ''add'' ''2'') ''/music/big/b.mp3''
   \<and> queue (cmd_add (sample_world ''add'' ''2'') [''/music/big/a.mp3'', ''/music/big/b.mp3'']
        (cmd_add (sample_world ''add'' ''1'') [''/music/big/a.mp3'', ''/music/big/b.mp3'']
           (sample_state ''/music/big'' None [] [] (- 1))))
      = [''/music/big/a.mp3'', ''/music/big/b.mp3'']
   \<and> on_song_end (sample_world ''>'' [])
        (cmd_add (sample_world ''add'' ''2'') [''/music/big/a.mp3'', ''/music/big/b.mp3'']
        (cmd_add (sample_world ''add'' ''1'') [''/music/big/a.mp3'', ''/music/big/b.mp3'']
           (sample_state ''/music/big'' None [] [] (- 1))))
      = Continue (final_state (on_song_end (sample_world ''>'' [])
        (cmd_add (sample_world ''add'' ''2'') [''/music/big/a.mp3'', ''/music/big/b.mp3'']
        (cmd_add (sample_world ''add'' ''1'') [''/music/big/a.mp3'', ''/music/big/b.mp3'']
           (sample_state ''/music/big'' None [] [] (- 1))))))
   \<and> queue (final_state (on_song_end (sample_world ''>'' [])
        (cmd_add (sample_world ''add'' ''2'') [''/music/big/a.mp3'', ''/music/big/b.mp3'']
        (cmd_add (sample_world ''add'' ''1'') [''/music/big/a.mp3'', ''/music/big/b.mp3'']
           (sample_state ''/music/big'' None [] [] (- 1)))))) = [''/music/big/b.mp3'']
   \<and> mixer_log (final_state (on_song_end (sample_world ''>'' [])
        (cmd_add (sample_world ''add'' ''2'') [''/music/big/a.mp3'', ''/music/big/b.mp3'']
        (cmd_add (sample_world ''add'' ''1'') [''/music/big/a.mp3'', ''/music/big/b.mp3'']
           (sample_state ''/music/big'' None [] [] (- 1))))))
      = [Load ''/music/big/a.mp3'', Play]
   \<and> queue (final_state (cmd_next (sample_world ''>'' [])
        (final_state (on_song_end (sample_world ''>'' [])
        (cmd_add (sample_world ''add'' ''2'') [''/music/big/a.mp3'', ''/music/big/b.mp3'']
        (cmd_add (sample_world ''add'' ''1'') [''/music/big/a.mp3'', ''/music/big/b.mp3'']
           (sample_state ''/music/big'' None [] [] (- 1)))))))) = []
   \<and> mixer_log (final_state (cmd_next (sample_world ''>'' [])
        (final_state (on_song_end (sample_world ''>'' [])
        (cmd_add (sample_world ''add'' ''2'') [''/music/big/a.mp3'', ''/music/big/b.mp3'']
        (cmd_add (sample_world ''add'' ''1'') [''/music/big/a.mp3'', ''/music/big/b.mp3'']
           (sample_state ''/music/big'' None [] [] (- 1))))))))
      = [Load ''/music/big/a.mp3'', Play, Load ''/music/big/b.mp3'', Play]
   \<and> choice (sample_world ''clear'' []) = ''clear''
   \<and> queue (final_state (dispatch (sample_world ''clear'' []) [] []
        [''/music/big/a.mp3'', ''/music/big/b.mp3'']
        (cmd_add (sample_world ''add'' ''2'') [''/music/big/a.mp3'', ''/music/big/b.mp3'']
        (cmd_add (sample_world ''add'' ''1'') [''/music/big/a.mp3'', ''/music/big/b.mp3'']
           (sample_state ''/music/big'' None [] [] (- 1)))))) = []"
proof -
  let ?wa = "sample_world ''add'' ''1''" and ?wb = "sample_world ''add'' ''2''"
  let ?w = "sample_world ''>'' []" and ?wc = "sample_world ''clear'' []"
  let ?a = "''/music/big/a.mp3''" and ?b = "''/music/big/b.mp3''"
  let ?es = "[''/music/big/a.mp3'', ''/music/big/b.mp3'']"
  let ?st = "sample_state ''/music/big'' None [] [] (- 1)"
  let ?s2 = "cmd_add ?wb ?es (cmd_add ?wa ?es ?st)"
  let ?s3 = "final_state (on_song_end ?w ?s2)"
  have hyps: "queue ?st = []
      \<and> parse_int ?wa (add_line ?wa) = Some 1 \<and> item_map ?es 1 = Some ?a \<and> isfile ?wa ?a
      \<and> parse_int ?wb (add_line ?wb) = Some 2 \<and> item_map ?es 2 = Some ?b \<and> isfile ?wb ?b"
    by code_simp
  have pops: "on_song_end ?w = on_song_end ?w \<or> on_song_end ?w = cmd_next ?w"
    "cmd_next ?w = on_song_end ?w \<or> cmd_next ?w = cmd_next ?w"
    by simp_all
  have goes_on: "on_song_end ?w ?s2 = Continue ?s3"
    by code_simp
  have l: "load ?w ?a = Loaded" "load ?w ?b = Loaded"
    by code_simp+
  have m: "mixer_log ?st = []"
    by (simp add: sample_state_def)
  have c: "choice ?wc = ''clear''"
    by (simp add: sample_world_def)
  note scenario = queue_is_fifo [where w = ?w and n = 0 and st = ?st and es = ?es
      and af = "[]" and vp = "[]", THEN conjunct2, THEN conjunct2, THEN conjunct2,
      THEN conjunct2, rule_format, where wa = ?wa and wb = ?wb and ka = 1 and kb = 2
      and a = ?a and b = ?b and pa = "on_song_end ?w" and pb = "cmd_next ?w" and s = ?s3]
  from hyps pops have "queue ?st = []
      \<and> parse_int ?wa (add_line ?wa) = Some 1 \<and> item_map ?es 1 = Some ?a \<and> isfile ?wa ?a
      \<and> parse_int ?wb (add_line ?wb) = Some 2 \<and> item_map ?es 2 = Some ?b \<and> isfile ?wb ?b
      \<and> (on_song_end ?w = on_song_end ?w \<or> on_song_end ?w = cmd_next ?w)
      \<and> (cmd_next ?w = on_song_end ?w \<or> cmd_next ?w = cmd_next ?w)"
    by blast
  note r = scenario [OF this]
  note r1 = r [THEN conjunct1]
    and r2 = r [THEN conjunct2, THEN conjunct1]
    and r3 = r [THEN conjunct2, THEN conjunct2, THEN conjunct1]
    and r4 = r [THEN conjunct2, THEN conjunct2, THEN conjunct2, THEN mp, OF goes_on]
  from r3 have first: "mixer_log ?s3 = [Load ?a, Play]"
    by (simp only: l m if_True append_Nil refl)
  from r4 [THEN conjunct2] have second: "mixer_log (final_state (cmd_next ?w ?s3))
      = [Load ?a, Play, Load ?b, Play]"
    by (simp only: first l if_True append_Cons append_Nil refl)
  note cleared = queue_is_fifo [where w = ?wc and n = 0 and st = ?s2 and es = ?es
      and af = "[]" and vp = "[]", THEN conjunct2, THEN conjunct2, THEN conjunct1]
  have gone: "queue (final_state (dispatch ?wc [] [] ?es ?s2)) = []"
    unfolding cleared c by simp
  from hyps r1 goes_on r2 first r4 [THEN conjunct1] second c gone show ?thesis
    by blast
qed

subsection \<open>C10: extensions are matched case-sensitively\<close>

text \<open>
  Claim C10, as amended.  A name that ends in an upper-case or mixed-case spelling of a
  recognised extension (\<open>SONG.MP3\<close>) is not an audio file for the player: whatever the
  directory holds, the name is not in the audio-file listing and its path is not in the
  view playlist; and in no run of the loop from its initial state, whatever is typed, is
  its path queued, put in the active playlist, made the current track or handed to the
  mixer.  But it is not true that such an entry can never be selected from the menu: the
  folders of the menu are listed without looking at their names, so if the entry is a
  directory it stands in the menu, and typing its number selects it and enters it.  Only
  as a directory can it stand there: a regular file of that name is never in the menu.
\<close>

theorem case_variants_never_play:
  assumes "case_variant v" "suffix v name"
  shows "name \<notin> set (audio_files_of contents)
     \<and> join cur name \<notin> set (view_playlist_of cur' (audio_files_of contents))
     \<and> (join cur name
          \<in> set (menu_entries w st (folders_of w (current_path st) contents)
                   (audio_files_of contents)) \<longrightarrow>
        isdir w (join cur name) \<and> \<not> isfile w (join cur name))
     \<and> (name \<in> set contents \<and> isdir w (join (current_path st) name) \<longrightarrow>
        join (current_path st) name
          \<in> set (menu_entries w st (folders_of w (current_path st) contents)
                   (audio_files_of contents)))
     \<and> (\<forall>k. parse_int w (choice w) = Some k \<and> item_map es k = Some (join cur name)
             \<and> isdir w (join cur name) \<longrightarrow>
             cmd_number w es vp st = Continue (enter_directory w (join cur name) st)
           \<and> current_path (enter_directory w (join cur name) st) = join cur name)
     \<and> untouched (join cur name) (final_state (run ws (initial_state w0 c stored folder)))"
proof -
  have q: "suffix v (join cur name)"
    using assms(2) suffix_join by (rule suffix_order.trans)
  have audio: "\<not> endswith (join cur name) audio_extensions"
    using assms(1) q by (rule variant_not_audio)
  have parent: "join cur name \<noteq> ''..''"
    using variant_not_parent [OF assms(1)] q by auto
  have 1: "name \<notin> set (audio_files_of contents)"
    using variant_not_audio [OF assms] by (simp add: audio_files_of_def)
  have 2: "join cur name \<notin> set (view_playlist_of cur' (audio_files_of contents))"
    using audio view_playlist_audio by blast
  have 3: "join cur name
          \<in> set (menu_entries w st (folders_of w (current_path st) contents)
                   (audio_files_of contents)) \<longrightarrow>
        isdir w (join cur name) \<and> \<not> isfile w (join cur name)"
    using audio parent menu_entries_kinds [of "join cur name" w st contents]
      isdir_not_isfile [of w "join cur name"]
    by blast
  have 4: "name \<in> set contents \<and> isdir w (join (current_path st) name) \<longrightarrow>
        join (current_path st) name
          \<in> set (menu_entries w st (folders_of w (current_path st) contents)
                   (audio_files_of contents))"
    by (simp add: menu_entries_def folders_of_def)
  have 5: "\<forall>k. parse_int w (choice w) = Some k \<and> item_map es k = Some (join cur name)
             \<and> isdir w (join cur name) \<longrightarrow>
             cmd_number w es vp st = Continue (enter_directory w (join cur name) st)
           \<and> current_path (enter_directory w (join cur name) st) = join cur name"
    using parent by (simp add: cmd_number_def enter_directory_def)
  have 6: "untouched (join cur name) (final_state (run ws (initial_state w0 c stored folder)))"
    using assms(1) q untouched_initial_state by (rule untouched_run)
  show ?thesis
    by (rule conjI [OF 1 conjI [OF 2 conjI [OF 3 conjI [OF 4 conjI [OF 5 6]]]]])
qed

theorem case_variants_never_play_witness:
  "case_variant ''.MP3''
   \<and> suffix ''.MP3'' ''SONG.MP3''
   \<and> ''SONG.MP3'' \<in> set music_names
   \<and> ''SONG.MP3'' \<notin> set (audio_files_of (sort music_names))
   \<and> join ''/music'' ''SONG.MP3''
       \<notin> set (view_playlist_of ''/music'' (audio_files_of (sort music_names)))
   \<and> untouched (join ''/music'' ''SONG.MP3'')
       (final_state (run [sample_world ''add'' ''4'', sample_world ''s'' [],
                          sample_world ''>'' [], sample_world ''7'' []]
          (initial_state (sample_world [] []) sample_config (Some sample_config) ''/music'')))
   \<and> suffix ''.MP3'' ''ENCORE.MP3''
   \<and> parse_int (sample_world ''2'' []) (choice (sample_world ''2'' [])) = Some 2
   \<and> item_map [''..'', ''/music/live/ENCORE.MP3''] 2 = Some (join ''/music/live'' ''ENCORE.MP3'')
   \<and> isdir (sample_world ''2'' []) (join ''/music/live'' ''ENCORE.MP3'')
   \<and> cmd_number (sample_world ''2'' []) [''..'', ''/music/live/ENCORE.MP3''] []
        (sample_state ''/music/live'' None [] [] (- 1))
      = Continue (enter_directory (sample_world ''2'' []) (join ''/music/live'' ''ENCORE.MP3'')
          (sample_state ''/music/live'' None [] [] (- 1)))
   \<and> current_path (enter_directory (sample_world ''2'' []) (join ''/music/live'' ''ENCORE.MP3'')
          (sample_state ''/music/live'' None [] [] (- 1))) = join ''/music/live'' ''ENCORE.MP3''"
proof -
  let ?w = "sample_world ''2'' []"
  let ?es = "[''..'', ''/music/live/ENCORE.MP3'']"
  let ?st = "sample_state ''/music/live'' None [] [] (- 1)"
  have v: "case_variant ''.MP3''"
    by (rule capitals_variant)
  have s: "suffix ''.MP3'' ''SONG.MP3''" and e: "suffix ''.MP3'' ''ENCORE.MP3''"
    by code_simp+
  have m: "''SONG.MP3'' \<in> set music_names"
    by (simp add: music_names_def)
  have sel: "parse_int ?w (choice ?w) = Some 2
      \<and> item_map ?es 2 = Some (join ''/music/live'' ''ENCORE.MP3'')
      \<and> isdir ?w (join ''/music/live'' ''ENCORE.MP3'')"
    by code_simp
  note song = case_variants_never_play [OF v s, of "sort music_names" "''/music''" "''/music''"]
  note encore = case_variants_never_play [OF v e, where w = ?w and es = ?es
      and cur = "''/music/live''" and st = ?st and vp = "[]",
      THEN conjunct2, THEN conjunct2, THEN conjunct2, THEN conjunct2, THEN conjunct1,
      rule_format, OF sel]
  from song v s m e sel encore show ?thesis
    by blast
qed

text \<open>
  The claim as stated fails in \<open>/music/live\<close>, which holds the folder \<open>ENCORE.MP3\<close>: the
  folder is the second entry of the menu, after the parent directory, and typing \<open>2\<close>
  selects it: the player enters it.
\<close>

theorem case_variants_never_play_counterexample:
  "case_variant ''.MP3''
   \<and> suffix ''.MP3'' ''ENCORE.MP3''
   \<and> listdir (sample_world ''2'' []) ''/music/live'' = Entries [''cover.jpg'', ''ENCORE.MP3'']
   \<and> menu_entries (sample_world ''2'' []) (sample_state ''/music/live'' None [] [] (- 1))
        (folders_of (sample_world ''2'' []) ''/music/live'' (sort [''cover.jpg'', ''ENCORE.MP3'']))
        (audio_files_of (sort [''cover.jpg'', ''ENCORE.MP3'']))
      = [''..'', ''/music/live/ENCORE.MP3'']
   \<and> choice (sample_world ''2'' []) = ''2''
   \<and> iteration (sample_world ''2'' []) (sample_state ''/music/live'' None [] [] (- 1))
      = Continue (sample_state ''/music/live/ENCORE.MP3'' None [] [] (- 1))"
  by code_simp

end
